theory Spec2Isabelle
  imports Main
begin

section \<open>Data model\<close>

text \<open>
  Object ids (Mongo \<^verbatim>\<open>ObjectId\<close>) are modelled as natural numbers. The enums
  \<^verbatim>\<open>CommentState\<close> (Unread = 0, Read = 1, Junk = 2) and \<^verbatim>\<open>CommentRefTypes\<close> come from
  \<^verbatim>\<open>@libs/db/models/comment.model\<close>; the exceptions the handlers raise are values of
  \<open>error\<close>: \<^verbatim>\<open>CannotFindException\<close> is \<open>NotFound\<close>, \<^verbatim>\<open>ForbiddenException\<close> is
  \<open>Forbidden\<close>, a rejected request body or author name is \<open>BadInput\<close>, and reading
  \<^verbatim>\<open>_id\<close> of \<^verbatim>\<open>null\<close> is \<open>TypeError\<close>.
\<close>

type_synonym oid = nat

datatype CommentState = Unread | Read | Junk

datatype CommentRefTypes = Post | Note

datatype error = NotFound | Forbidden | BadInput | TypeError

text \<open>A stored comment document.\<close>

record Comment =
  c_id :: oid
  ref :: oid
  refType :: CommentRefTypes
  parent :: "oid option"
  children :: "oid list"
  commentsIndex :: nat
  key :: string
  state :: CommentState
  author :: "string option"
  body_text :: "string option"
  mail :: "string option"
  url :: "string option"
  ip :: "string option"

text \<open>
  \<^verbatim>\<open>Partial<Comment>\<close>: the plain object a handler hands to \<^verbatim>\<open>createNew\<close>. A property
  that the object does not carry is \<open>None\<close>. The request body (\<^verbatim>\<open>CommentDto\<close>) is such
  an object too: at run time it is whatever object reaches the handler, and
  \<^verbatim>\<open>replyByMaster\<close> itself passes a body that carries \<^verbatim>\<open>state\<close>. Every property an
  object carries has a value here: a property that is present with the value
  \<^verbatim>\<open>null\<close> or \<^verbatim>\<open>undefined\<close> (which a spread copies as well) is outside this type.
\<close>

record PartialComment =
  p_parent :: "oid option"
  p_ref :: "oid option"
  p_refType :: "CommentRefTypes option"
  p_author :: "string option"
  p_text :: "string option"
  p_mail :: "string option"
  p_url :: "string option"
  p_state :: "CommentState option"
  p_ip :: "string option"
  p_key :: "string option"

text \<open>A post or a note: the target a comment is attached to.\<close>

record Content =
  t_id :: oid
  title :: string
  content_text :: string
  hide :: bool
  password :: "string option"
  created :: int

record db =
  postModel :: "Content list"
  noteModel :: "Content list"
  commentModel :: "Comment list"

text \<open>
  The collaborators of the comment controller that are not part of the sources:
  \<^verbatim>\<open>commentService.ValidAuthorName\<close> (it either returns or throws; \<open>True\<close> means it
  returns) and \<^verbatim>\<open>commentService.allowComment\<close>.
\<close>

record env =
  ValidAuthorName :: "string option \<Rightarrow> bool"
  allowComment :: "oid \<Rightarrow> CommentRefTypes \<Rightarrow> bool"

record IpRecord =
  ip_addr :: string

text \<open>
  What the decorators of \<^verbatim>\<open>comment\<close> and \<^verbatim>\<open>replyByCid\<close> extract from a request:
  \<^verbatim>\<open>@Param() params\<close>, \<^verbatim>\<open>@Body() body\<close> (\<^verbatim>\<open>@Body('author')\<close> is its \<open>p_author\<close>),
  \<^verbatim>\<open>@Master() isMaster\<close>, \<^verbatim>\<open>@IpLocation() ipLocation\<close> and, for \<^verbatim>\<open>comment\<close>,
  \<^verbatim>\<open>@Query() query\<close> with its optional \<^verbatim>\<open>ref\<close>.
\<close>

record request =
  params_id :: oid
  body :: PartialComment
  isMaster :: bool
  ipLocation :: IpRecord
  query_ref :: "CommentRefTypes option"

section \<open>Template strings\<close>

text \<open>\<^verbatim>\<open>`${n}`\<close> for a non-negative integer \<open>n\<close>: its decimal digits.\<close>

definition digit_char :: "nat \<Rightarrow> char" where
  "digit_char n = ''0123456789'' ! (n mod 10)"

fun show_nat :: "nat \<Rightarrow> string" where
  "show_nat n = (if n < 10 then [digit_char n] else show_nat (n div 10) @ [digit_char n])"

declare show_nat.simps [simp del]

section \<open>Object spread\<close>

text \<open>
  \<^verbatim>\<open>{ ...a, ...b }\<close>: every property of \<open>b\<close> replaces the property of the same name
  in \<open>a\<close>.
\<close>

definition orElse :: "'a option \<Rightarrow> 'a option \<Rightarrow> 'a option" where
  "orElse b a = (case b of Some v \<Rightarrow> Some v | None \<Rightarrow> a)"

definition spread :: "PartialComment \<Rightarrow> PartialComment \<Rightarrow> PartialComment" where
  "spread a b =
     \<lparr> p_parent = orElse (p_parent b) (p_parent a),
       p_ref = orElse (p_ref b) (p_ref a),
       p_refType = orElse (p_refType b) (p_refType a),
       p_author = orElse (p_author b) (p_author a),
       p_text = orElse (p_text b) (p_text a),
       p_mail = orElse (p_mail b) (p_mail a),
       p_url = orElse (p_url b) (p_url a),
       p_state = orElse (p_state b) (p_state a),
       p_ip = orElse (p_ip b) (p_ip a),
       p_key = orElse (p_key b) (p_key a) \<rparr>"

definition empty_partial :: PartialComment where
  "empty_partial =
     \<lparr> p_parent = None, p_ref = None, p_refType = None, p_author = None, p_text = None,
       p_mail = None, p_url = None, p_state = None, p_ip = None, p_key = None \<rparr>"

definition ip_partial :: "IpRecord \<Rightarrow> PartialComment" where
  "ip_partial r = empty_partial \<lparr> p_ip := Some (ip_addr r) \<rparr>"

section \<open>Persistence gateway for comments\<close>

text \<open>
  Modelled from the spec: the persistence gateway (\<^verbatim>\<open>BaseService\<close>, which
  \<^verbatim>\<open>CommentsService\<close> extends; neither is among the sources). \<^verbatim>\<open>findById\<close> "returns
  first match or absence; no error on zero matches". A collection is the list of its
  documents in insertion order; a query by \<^verbatim>\<open>_id\<close> addresses the first document with
  that id.
\<close>

definition findById :: "Comment list \<Rightarrow> oid \<Rightarrow> Comment option" where
  "findById cs i = find (\<lambda>c. c_id c = i) cs"

definition findContent :: "Content list \<Rightarrow> oid \<Rightarrow> Content option" where
  "findContent ts i = find (\<lambda>t. t_id t = i) ts"

definition targetModel :: "db \<Rightarrow> CommentRefTypes \<Rightarrow> Content list" where
  "targetModel d t = (case t of Post \<Rightarrow> postModel d | Note \<Rightarrow> noteModel d)"

text \<open>
  \<^verbatim>\<open>.populate('ref')\<close>: the referenced post or note, looked up in the collection
  that \<^verbatim>\<open>refType\<close> names; \<^verbatim>\<open>null\<close> (\<open>None\<close>) when it no longer exists.
\<close>

definition populate_ref :: "db \<Rightarrow> Comment \<Rightarrow> Content option" where
  "populate_ref d c = findContent (targetModel d (refType c)) (ref c)"

text \<open>
  A generated \<^verbatim>\<open>ObjectId\<close> is one that no comment document carries or mentions:
  here the successor of the largest id in use.
\<close>

definition used_ids :: "Comment list \<Rightarrow> oid list" where
  "used_ids cs = concat (map (\<lambda>c. c_id c # children c) cs)"

definition fresh_id :: "Comment list \<Rightarrow> oid" where
  "fresh_id cs = Suc (fold max (used_ids cs) 0)"

text \<open>
  Modelled from the spec: \<^verbatim>\<open>createNew(data) -> T\<close> of the persistence gateway
  (\<^verbatim>\<open>BaseService.createNew\<close>, missing from the sources) "inserts and returns the
  created entity with generated id"; a new comment has no children, \<^verbatim>\<open>commentsIndex\<close>
  0 and state Unread unless the object carries a state; a missing required field
  (\<^verbatim>\<open>ref\<close>, \<^verbatim>\<open>refType\<close>, \<^verbatim>\<open>key\<close>) is \<open>BadInput\<close>.
\<close>

definition createNew :: "PartialComment \<Rightarrow> db \<Rightarrow> error + (Comment \<times> db)" where
  "createNew m d =
     (case p_ref m of None \<Rightarrow> Inl BadInput | Some r \<Rightarrow>
      (case p_refType m of None \<Rightarrow> Inl BadInput | Some t \<Rightarrow>
       (case p_key m of None \<Rightarrow> Inl BadInput | Some k \<Rightarrow>
          (let c = \<lparr> c_id = fresh_id (commentModel d), ref = r, refType = t,
                      parent = p_parent m, children = [], commentsIndex = 0, key = k,
                      state = (case p_state m of Some s \<Rightarrow> s | None \<Rightarrow> Unread),
                      author = p_author m, body_text = p_text m, mail = p_mail m,
                      url = p_url m, ip = p_ip m \<rparr>
           in Inr (c, d \<lparr> commentModel := commentModel d @ [c] \<rparr>)))))"

text \<open>
  The update document of \<^verbatim>\<open>parent.updateOne\<close>:
  \<^verbatim>\<open>{ $push: { children: id }, $inc: { commentsIndex: k }, state: s }\<close>. The store
  applies it to the stored document in one step: \<^verbatim>\<open>$push\<close> appends to the stored
  list and \<^verbatim>\<open>$inc\<close> adds to the stored counter.
\<close>

record UpdateDoc =
  push_children :: oid
  inc_commentsIndex :: nat
  set_state :: "CommentState option"

definition applyUpdate :: "UpdateDoc \<Rightarrow> Comment \<Rightarrow> Comment" where
  "applyUpdate u c =
     c \<lparr> children := children c @ [push_children u],
         commentsIndex := commentsIndex c + inc_commentsIndex u,
         state := (case set_state u of Some s \<Rightarrow> s | None \<Rightarrow> state c) \<rparr>"

fun updateFirst :: "oid \<Rightarrow> (Comment \<Rightarrow> Comment) \<Rightarrow> Comment list \<Rightarrow> Comment list" where
  "updateFirst i f [] = []"
| "updateFirst i f (c # cs) = (if c_id c = i then f c # cs else c # updateFirst i f cs)"

definition updateOne :: "oid \<Rightarrow> UpdateDoc \<Rightarrow> db \<Rightarrow> db" where
  "updateOne i u d = d \<lparr> commentModel := updateFirst i (applyUpdate u) (commentModel d) \<rparr>"

section \<open>Replying to a comment\<close>

text \<open>
  \<^verbatim>\<open>replyByCid\<close> exists in two revisions: the controller of \<^verbatim>\<open>apps/server\<close>
  (\<open>Current\<close>) and the one under \<^verbatim>\<open>src/shared/comments\<close> (\<open>Legacy\<close>). They differ in
  the key of the reply and in the \<^verbatim>\<open>state\<close> entry of the parent's update.
\<close>

datatype revision = Current | Legacy

datatype reply_response = ReplySuccess

text \<open>
  The handler up to \<^verbatim>\<open>createNew\<close>: the author-name check for a guest, then
  \<^verbatim>\<open>findById(id).populate('ref')\<close>, the test \<^verbatim>\<open>if (!parent)\<close> and the read of
  \<^verbatim>\<open>parent.ref._id\<close>, which throws when the populated \<^verbatim>\<open>ref\<close> is \<^verbatim>\<open>null\<close>. This part
  only reads the store.
\<close>

definition reply_lookup :: "env \<Rightarrow> db \<Rightarrow> request \<Rightarrow> error + (Comment \<times> oid)" where
  "reply_lookup e d rq =
     (if \<not> isMaster rq \<and> \<not> ValidAuthorName e (p_author (body rq)) then Inl BadInput
      else (case findById (commentModel d) (params_id rq) of
              None \<Rightarrow> Inl NotFound
            | Some P \<Rightarrow>
                (case populate_ref d P of
                   None \<Rightarrow> Inl TypeError
                 | Some t \<Rightarrow> Inr (P, t_id t))))"

definition reply_key :: "revision \<Rightarrow> Comment \<Rightarrow> string" where
  "reply_key rv P =
     (case rv of
        Current \<Rightarrow> key P @ ''#'' @ show_nat (commentsIndex P)
      | Legacy \<Rightarrow> key P @ ''#'' @ show_nat (commentsIndex P + 1))"

text \<open>
  \<^verbatim>\<open>{ parent, ref: parent.ref._id, refType: parent.refType, ...body, ...ipLocation, key }\<close>
\<close>

definition reply_model :: "revision \<Rightarrow> Comment \<Rightarrow> oid \<Rightarrow> request \<Rightarrow> PartialComment" where
  "reply_model rv P tid rq =
     (spread
        (spread
           (empty_partial \<lparr> p_parent := Some (c_id P), p_ref := Some tid,
                             p_refType := Some (refType P) \<rparr>)
           (body rq))
        (ip_partial (ipLocation rq)))
     \<lparr> p_key := Some (reply_key rv P) \<rparr>"

definition reply_update :: "revision \<Rightarrow> Comment \<Rightarrow> Comment \<Rightarrow> UpdateDoc" where
  "reply_update rv P c =
     \<lparr> push_children = c_id c,
       inc_commentsIndex = 1,
       set_state =
         (case rv of
            Current \<Rightarrow> Some (if state c = Read \<and> state P \<noteq> Read then Read else state P)
          | Legacy \<Rightarrow> None) \<rparr>"

definition replyByCid ::
  "revision \<Rightarrow> env \<Rightarrow> db \<Rightarrow> request \<Rightarrow> (error + reply_response) \<times> db" where
  "replyByCid rv e d rq =
     (case reply_lookup e d rq of
        Inl err \<Rightarrow> (Inl err, d)
      | Inr (P, tid) \<Rightarrow>
          (case createNew (reply_model rv P tid rq) d of
             Inl err \<Rightarrow> (Inl err, d)
           | Inr (c, d1) \<Rightarrow> (Inr ReplySuccess, updateOne (c_id P) (reply_update rv P c) d1)))"

text \<open>
  The handler as a task: between two awaits of one request the event loop may run
  steps of another request. The steps are the reads up to \<^verbatim>\<open>createNew\<close> (they change
  nothing, so they count as one), \<^verbatim>\<open>await createNew(model)\<close> and
  \<^verbatim>\<open>await parent.updateOne(...)\<close>, each a single operation of the store.
  \<open>Replied c\<close> is the handler after its \<^verbatim>\<open>return\<close>, \<open>c\<close> being its local \<^verbatim>\<open>comment\<close>.
  Mails and broadcasts do not touch the store and are left out.
\<close>

datatype reply_task =
  Pending request
| Looked Comment oid request
| Created Comment Comment
| Replied Comment
| Failed error

fun reply_step :: "revision \<Rightarrow> env \<Rightarrow> reply_task \<Rightarrow> db \<Rightarrow> reply_task \<times> db" where
  "reply_step rv e (Pending rq) d =
     (case reply_lookup e d rq of
        Inl err \<Rightarrow> (Failed err, d)
      | Inr (P, tid) \<Rightarrow> (Looked P tid rq, d))"
| "reply_step rv e (Looked P tid rq) d =
     (case createNew (reply_model rv P tid rq) d of
        Inl err \<Rightarrow> (Failed err, d)
      | Inr (c, d1) \<Rightarrow> (Created P c, d1))"
| "reply_step rv e (Created P c) d = (Replied c, updateOne (c_id P) (reply_update rv P c) d)"
| "reply_step rv e (Replied c) d = (Replied c, d)"
| "reply_step rv e (Failed err) d = (Failed err, d)"

text \<open>
  Two requests in flight. A schedule says which of them takes the next step (\<open>True\<close>:
  the first); a step of a finished task changes nothing.
\<close>

fun run2 ::
  "revision \<Rightarrow> env \<Rightarrow> bool list \<Rightarrow> reply_task \<times> reply_task \<times> db \<Rightarrow> reply_task \<times> reply_task \<times> db" where
  "run2 rv e [] s = s"
| "run2 rv e (b # bs) (t1, t2, d) =
     (if b then (case reply_step rv e t1 d of (t1', d') \<Rightarrow> run2 rv e bs (t1', t2, d'))
      else (case reply_step rv e t2 d of (t2', d') \<Rightarrow> run2 rv e bs (t1, t2', d')))"

text \<open>
  Notions for reasoning about two replies in flight: the child id a task has pushed
  onto its parent, the child id it owns (created, pushed or not), how far it has got,
  and what holds of a task that replies to the comment \<open>i\<close> while the store is \<open>d\<close>.
\<close>

fun pushed :: "reply_task \<Rightarrow> oid list" where
  "pushed (Replied c) = [c_id c]"
| "pushed t = []"

fun own :: "reply_task \<Rightarrow> oid list" where
  "own (Created P c) = [c_id c]"
| "own (Replied c) = [c_id c]"
| "own t = []"

fun stage :: "reply_task \<Rightarrow> nat" where
  "stage (Pending rq) = 0"
| "stage (Looked P tid rq) = 1"
| "stage (Created P c) = 2"
| "stage (Replied c) = 3"
| "stage (Failed err) = 3"

fun good :: "env \<Rightarrow> oid \<Rightarrow> db \<Rightarrow> reply_task \<Rightarrow> bool" where
  "good e i d (Pending rq) =
     (params_id rq = i \<and> (isMaster rq \<or> ValidAuthorName e (p_author (body rq))))"
| "good e i d (Looked P tid rq) = (c_id P = i)"
| "good e i d (Created P c) = (c_id P = i \<and> findById (commentModel d) (c_id c) = Some c)"
| "good e i d (Replied c) = (findById (commentModel d) (c_id c) = Some c)"
| "good e i d (Failed err) = False"

definition reply_inv ::
  "env \<Rightarrow> oid \<Rightarrow> Comment \<Rightarrow> db \<Rightarrow> reply_task \<times> reply_task \<times> db \<Rightarrow> bool" where
  "reply_inv e i P0 d0 s =
     (case s of (t1, t2, d) \<Rightarrow>
        good e i d t1 \<and> good e i d t2
        \<and> postModel d = postModel d0 \<and> noteModel d = noteModel d0
        \<and> distinct (own t1 @ own t2)
        \<and> i \<notin> set (own t1 @ own t2)
        \<and> set (own t1 @ own t2) \<inter> set (children P0) = {}
        \<and> (\<exists>P. findById (commentModel d) i = Some P
                 \<and> ref P = ref P0 \<and> refType P = refType P0
                 \<and> commentsIndex P = commentsIndex P0 + length (pushed t1 @ pushed t2)
                 \<and> (children P = children P0 @ pushed t1 @ pushed t2
                      \<or> children P = children P0 @ pushed t2 @ pushed t1)))"

section \<open>Commenting on a post or a note\<close>

text \<open>
  Modelled from the spec: \<^verbatim>\<open>commentService.createComment\<close> is missing from the
  sources. It "validates the target exists" and fails with NotFound if the target is
  absent; "the new comment's key is its own generated id and its parent is empty".
  The allow-comment check is the controller's, below.
\<close>

definition createComment ::
  "db \<Rightarrow> oid \<Rightarrow> CommentRefTypes \<Rightarrow> PartialComment \<Rightarrow> error + (Comment \<times> db)" where
  "createComment d i t m =
     (case findContent (targetModel d t) i of
        None \<Rightarrow> Inl NotFound
      | Some target \<Rightarrow>
          createNew (m \<lparr> p_parent := None, p_ref := Some i, p_refType := Some t,
                        p_key := Some (show_nat (fresh_id (commentModel d))) \<rparr>) d)"

text \<open>
  \<^verbatim>\<open>Master\<close> in the guard of \<^verbatim>\<open>comment\<close> is the parameter decorator imported from
  \<^verbatim>\<open>libs/core/decorators/guest.decorator\<close>, not the handler's argument
  \<^verbatim>\<open>isMaster\<close>: a function value, which is truthy for every caller.
\<close>

definition Master :: bool where
  "Master = True"

text \<open>
  \<^verbatim>\<open>comment\<close> of the \<^verbatim>\<open>apps/server\<close> controller. The promise it starts afterwards
  (spam check, mail, broadcast) is not awaited and is left out.
\<close>

definition comment :: "env \<Rightarrow> db \<Rightarrow> request \<Rightarrow> (error + Comment) \<times> db" where
  "comment e d rq =
     (if \<not> isMaster rq \<and> \<not> ValidAuthorName e (p_author (body rq)) then (Inl BadInput, d)
      else
        (let t = (case query_ref rq of Some t \<Rightarrow> t | None \<Rightarrow> Post) in
         if \<not> allowComment e (params_id rq) t \<and> \<not> Master then (Inl Forbidden, d)
         else
           (case createComment d (params_id rq) t
                   (spread (body rq) (ip_partial (ipLocation rq))) of
              Inl err \<Rightarrow> (Inl err, d)
            | Inr (c, d1) \<Rightarrow> (Inr c, d1))))"

section \<open>Moderation\<close>

record UpdateResult =
  n_matched :: nat
  nModified :: nat

text \<open>
  Modelled from the spec: \<^verbatim>\<open>update(filter, patch) -> UpdateResult\<close> of the
  persistence gateway (\<^verbatim>\<open>BaseService.updateAsync\<close>, missing from the sources) is a
  "partial update; reports modified-count; does not error if zero documents matched".
  Here the filter is \<^verbatim>\<open>{ _id: id }\<close> and the patch \<^verbatim>\<open>{ state }\<close>.
\<close>

definition updateAsync :: "oid \<Rightarrow> CommentState \<Rightarrow> db \<Rightarrow> error + (UpdateResult \<times> db)" where
  "updateAsync i s d =
     Inr (\<lparr> n_matched = (case findById (commentModel d) i of None \<Rightarrow> 0 | Some c \<Rightarrow> 1),
            nModified = (case findById (commentModel d) i of
                           None \<Rightarrow> 0
                         | Some c \<Rightarrow> if state c = s then 0 else 1) \<rparr>,
          d \<lparr> commentModel := updateFirst i (\<lambda>c. c \<lparr> state := s \<rparr>) (commentModel d) \<rparr>)"

definition modifyCommentState :: "db \<Rightarrow> oid \<Rightarrow> CommentState \<Rightarrow> (error + UpdateResult) \<times> db" where
  "modifyCommentState d i s =
     (case updateAsync i s d of
        Inl err \<Rightarrow> (Inl NotFound, d)
      | Inr (r, d1) \<Rightarrow> (Inr r, d1))"

section \<open>Query filters\<close>

text \<open>
  The values a filter compares with, as a view of a document by field name. A field the
  document does not carry reads \<open>VUndefined\<close>; an equality with \<^verbatim>\<open>undefined\<close>
  matches exactly the documents where the field is missing or null.
\<close>

datatype jsval = VUndefined | VBool bool | VNum int | VStr string | VId oid | VIds "oid list"

text \<open>
  A filter object. \<^verbatim>\<open>{ k: v }\<close> is \<open>(k, Is (CEq v))\<close>,
  \<^verbatim>\<open>{ k: { $gte: a, $lte: b } }\<close> is \<open>(k, Is (CRange a b))\<close>,
  \<^verbatim>\<open>{ k: { $in: [r1, r2] } }\<close> with regular expressions is \<open>(k, Is (CIn [r1, r2]))\<close>, a
  regular expression being the test it performs on a string, and
  \<^verbatim>\<open>{ $or: [o1, o2] }\<close> is \<open>(''$or'', AnyOf [o1, o2])\<close>.
\<close>

datatype cond = CEq jsval | CRange int int | CIn "(string \<Rightarrow> bool) list"

datatype clause = Is cond | AnyOf "(string \<times> cond) list list"

type_synonym query_filter = "(string \<times> clause) list"

definition obj_spread :: "query_filter \<Rightarrow> query_filter \<Rightarrow> query_filter" where
  "obj_spread a b = filter (\<lambda>kc. fst kc \<notin> set (map fst b)) a @ b"

definition match_cond :: "(string \<Rightarrow> jsval) \<Rightarrow> string \<times> cond \<Rightarrow> bool" where
  "match_cond fld kc =
     (case snd kc of
        CEq v \<Rightarrow> fld (fst kc) = v
      | CRange lo hi \<Rightarrow> (case fld (fst kc) of VNum x \<Rightarrow> lo \<le> x \<and> x \<le> hi | _ \<Rightarrow> False)
      | CIn rs \<Rightarrow> (case fld (fst kc) of VStr s \<Rightarrow> list_ex (\<lambda>r. r s) rs | _ \<Rightarrow> False))"

definition match_clause :: "(string \<Rightarrow> jsval) \<Rightarrow> string \<times> clause \<Rightarrow> bool" where
  "match_clause fld kc =
     (case snd kc of
        Is c \<Rightarrow> match_cond fld (fst kc, c)
      | AnyOf alts \<Rightarrow> list_ex (list_all (match_cond fld)) alts)"

definition matches :: "(string \<Rightarrow> jsval) \<Rightarrow> query_filter \<Rightarrow> bool" where
  "matches fld flt = list_all (match_clause fld) flt"

definition opt_val :: "('a \<Rightarrow> jsval) \<Rightarrow> 'a option \<Rightarrow> jsval" where
  "opt_val f x = (case x of None \<Rightarrow> VUndefined | Some v \<Rightarrow> f v)"




definition content_field :: "Content \<Rightarrow> string \<Rightarrow> jsval" where
  "content_field t k =
     (if k = ''_id'' then VId (t_id t)
      else if k = ''title'' then VStr (title t)
      else if k = ''text'' then VStr (content_text t)
      else if k = ''hide'' then VBool (hide t)
      else if k = ''password'' then opt_val VStr (password t)
      else if k = ''created'' then VNum (created t)
      else VUndefined)"

section \<open>Deleting a post\<close>






section \<open>Numbers\<close>

text \<open>
  A JavaScript number as the handlers meet it: a double that holds an integer,
  \<^verbatim>\<open>NaN\<close>, or an infinity (\<open>Infinity True\<close> is the positive one). The sign of zero is
  not kept. \<open>round53\<close> rounds a natural number above \<open>2 ^ 53\<close> to 53 significant bits,
  to the nearest and, halfway, to the even one; \<open>to_double\<close> is the double that an
  exact integer result becomes, infinite from \<open>2 ^ 1024\<close> on.
\<close>

datatype jsnum = Num int | NaN | Infinity bool

fun bitlen :: "nat \<Rightarrow> nat" where
  "bitlen n = (if n = 0 then 0 else Suc (bitlen (n div 2)))"

declare bitlen.simps [simp del]

definition round53 :: "nat \<Rightarrow> nat" where
  "round53 n =
     (let e = bitlen n - 53; q = n div 2 ^ e; r = n mod 2 ^ e; h = 2 ^ (e - 1)
      in (if h < r \<or> (r = h \<and> odd q) then Suc q else q) * 2 ^ e)"

definition to_double :: "int \<Rightarrow> jsnum" where
  "to_double n =
     (if \<bar>n\<bar> \<le> 2 ^ 53 then Num n
      else (let m = round53 (nat \<bar>n\<bar>)
            in if 1024 < bitlen m then Infinity (0 < n) else Num (sgn n * int m)))"

text \<open>An operand that is \<^verbatim>\<open>undefined\<close> converts to \<^verbatim>\<open>NaN\<close>.\<close>

definition js_number :: "jsnum option \<Rightarrow> jsnum" where
  "js_number v = (case v of None \<Rightarrow> NaN | Some x \<Rightarrow> x)"

fun js_sub :: "jsnum \<Rightarrow> jsnum \<Rightarrow> jsnum" where
  "js_sub (Num a) (Num b) = to_double (a - b)"
| "js_sub (Num a) (Infinity t) = Infinity (\<not> t)"
| "js_sub (Infinity s) (Num b) = Infinity s"
| "js_sub (Infinity s) (Infinity t) = (if s = t then NaN else Infinity s)"
| "js_sub NaN y = NaN"
| "js_sub x NaN = NaN"

fun js_mul :: "jsnum \<Rightarrow> jsnum \<Rightarrow> jsnum" where
  "js_mul (Num a) (Num b) = to_double (a * b)"
| "js_mul (Num a) (Infinity t) = (if a = 0 then NaN else Infinity (t = (0 < a)))"
| "js_mul (Infinity s) (Num b) = (if b = 0 then NaN else Infinity (s = (0 < b)))"
| "js_mul (Infinity s) (Infinity t) = Infinity (s = t)"
| "js_mul NaN y = NaN"
| "js_mul x NaN = NaN"

text \<open>\<^verbatim>\<open>~~x\<close>: the number as a signed 32-bit integer, 0 for \<^verbatim>\<open>NaN\<close> and the infinities.\<close>

definition to_int32 :: "jsnum \<Rightarrow> int" where
  "to_int32 x = (case x of Num n \<Rightarrow> (n + 2 ^ 31) mod 2 ^ 32 - 2 ^ 31 | _ \<Rightarrow> 0)"

text \<open>\<^verbatim>\<open>(page - 1) * size\<close>\<close>

definition js_skip :: "jsnum option \<Rightarrow> jsnum option \<Rightarrow> jsnum" where
  "js_skip page sz = js_mul (js_sub (js_number page) (Num 1)) (js_number sz)"

section \<open>Listing\<close>

text \<open>\<^verbatim>\<open>addConditionToSeeHideContent\<close> and \<^verbatim>\<open>yearCondition\<close> of \<^verbatim>\<open>utils/index.ts\<close>.\<close>

definition addConditionToSeeHideContent :: "bool \<Rightarrow> query_filter" where
  "addConditionToSeeHideContent is_master =
     (if is_master
      then [(''$or'', AnyOf [[(''hide'', CEq (VBool False))], [(''hide'', CEq (VBool True))]])]
      else [(''hide'', Is (CEq (VBool False))), (''password'', Is (CEq VUndefined))])"

text \<open>
  \<open>newDate\<close> is the runtime's \<^verbatim>\<open>new Date(year, monthIndex, day)\<close> as a timestamp;
  \<^verbatim>\<open>!year\<close> holds for a missing year and for 0.
\<close>

definition yearCondition :: "(int \<Rightarrow> int \<Rightarrow> int \<Rightarrow> int) \<Rightarrow> int option \<Rightarrow> query_filter" where
  "yearCondition newDate year =
     (case year of
        None \<Rightarrow> []
      | Some y \<Rightarrow>
          if y = 0 then []
          else [(''created'', Is (CRange (newDate y 1 1) (newDate (y + 1) 1 1)))])"

record PageOptions =
  opt_limit :: "jsnum option"
  opt_skip :: jsnum
  opt_select :: "string option"
  opt_sort :: "(string \<times> int) option"
  opt_populate :: "string option"

text \<open>
  The query objects of the paged listings: \<^verbatim>\<open>PostQueryDto\<close>, \<^verbatim>\<open>NoteQueryDto\<close> and
  \<^verbatim>\<open>PagerDto\<close> (\<open>ListQuery\<close>), \<^verbatim>\<open>SearchDto\<close> and \<^verbatim>\<open>AnalyzeDto & Partial<PagerDto>\<close>. The
  classes are not among the sources; a field is \<open>None\<close> when the query does not carry
  it. \<^verbatim>\<open>page\<close> and \<^verbatim>\<open>size\<close> are numbers, as the handlers compute with them and as
  \<^verbatim>\<open>Pager\<close> declares them.
\<close>

record ListQuery =
  q_page :: "jsnum option"
  q_size :: "jsnum option"
  q_select :: "string option"
  q_year :: "int option"
  q_sortBy :: "string option"
  q_sortOrder :: "int option"

record SearchQuery =
  s_keyword :: string
  s_page :: "jsnum option"
  s_size :: "jsnum option"

record AnalyzeQuery =
  a_from :: "int option"
  a_to :: "int option"
  a_page :: "jsnum option"
  a_size :: "jsnum option"

text \<open>\<^verbatim>\<open>sortBy ? { [sortBy]: sortOrder || -1 } : { created: -1 }\<close>\<close>

definition sort_option :: "ListQuery \<Rightarrow> string \<times> int" where
  "sort_option q =
     (case q_sortBy q of
        None \<Rightarrow> (''created'', - 1)
      | Some f \<Rightarrow>
          if f = [] then (''created'', - 1)
          else (f, (case q_sortOrder q of
                      None \<Rightarrow> - 1
                    | Some ord \<Rightarrow> if ord = 0 then - 1 else ord)))"

definition list_condition :: "(int \<Rightarrow> int \<Rightarrow> int \<Rightarrow> int) \<Rightarrow> bool \<Rightarrow> ListQuery \<Rightarrow> query_filter" where
  "list_condition newDate is_master q =
     obj_spread (addConditionToSeeHideContent is_master) (yearCondition newDate (q_year q))"

text \<open>
  The handlers. Each takes the operation of its service that it calls
  (\<^verbatim>\<open>this.service.findWithPaginator\<close> and the like) as its first argument \<open>service\<close>,
  and returns what that call returns.

  \<^verbatim>\<open>getAll\<close> of the posts controller and \<^verbatim>\<open>getNotes\<close>:
  \<^verbatim>\<open>const { size, select, page, year, sortBy, sortOrder } = query\<close>.
\<close>

definition getAll ::
  "(query_filter \<Rightarrow> PageOptions \<Rightarrow> 'r) \<Rightarrow> (int \<Rightarrow> int \<Rightarrow> int \<Rightarrow> int) \<Rightarrow> bool \<Rightarrow> ListQuery \<Rightarrow> 'r" where
  "getAll service newDate is_master q =
     service (list_condition newDate is_master q)
       \<lparr> opt_limit = q_size q,
         opt_skip = js_skip (q_page q) (q_size q),
         opt_select = q_select q,
         opt_sort = Some (sort_option q),
         opt_populate = Some ''category'' \<rparr>"

definition getNotes ::
  "(query_filter \<Rightarrow> PageOptions \<Rightarrow> 'r) \<Rightarrow> (int \<Rightarrow> int \<Rightarrow> int \<Rightarrow> int) \<Rightarrow> bool \<Rightarrow> ListQuery \<Rightarrow> 'r" where
  "getNotes service newDate is_master q =
     service (list_condition newDate is_master q)
       \<lparr> opt_limit = q_size q,
         opt_skip = js_skip (q_page q) (q_size q),
         opt_select = q_select q,
         opt_sort = Some (sort_option q),
         opt_populate = None \<rparr>"

text \<open>
  \<^verbatim>\<open>getCommentsByRefId\<close>: \<^verbatim>\<open>const { page = 1, size = 10, select } = query\<close>. The
  \<^verbatim>\<open>apps/server\<close> revision also restricts the state to 0 or 1.
\<close>

definition getCommentsByRefId_filter :: "revision \<Rightarrow> oid \<Rightarrow> query_filter" where
  "getCommentsByRefId_filter rv i =
     [(''parent'', Is (CEq VUndefined)), (''ref'', Is (CEq (VId i)))] @
     (case rv of
        Current \<Rightarrow> [(''$or'', AnyOf [[(''state'', CEq (VNum 0))], [(''state'', CEq (VNum 1))]])]
      | Legacy \<Rightarrow> [])"

definition getCommentsByRefId ::
  "revision \<Rightarrow> (query_filter \<Rightarrow> PageOptions \<Rightarrow> 'r) \<Rightarrow> oid \<Rightarrow> ListQuery \<Rightarrow> 'r" where
  "getCommentsByRefId rv service i q =
     (let page = (case q_page q of None \<Rightarrow> Num 1 | Some p \<Rightarrow> p);
          sz = (case q_size q of None \<Rightarrow> Num 10 | Some s \<Rightarrow> s)
      in service (getCommentsByRefId_filter rv i)
           \<lparr> opt_limit = Some sz,
             opt_skip = js_mul (js_sub page (Num 1)) sz,
             opt_select = q_select q,
             opt_sort = Some (''created'', - 1),
             opt_populate = None \<rparr>)"

text \<open>
  \<^verbatim>\<open>keyword.split(/\s+/)\<close>: the pieces between runs of white space, the empty piece
  before a leading and after a trailing run included. \<open>is_space\<close> has the white space
  of ASCII; a keyword with other white space is outside the model.
\<close>

definition is_space :: "char \<Rightarrow> bool" where
  "is_space c = (c \<in> set [CHR '' '', CHR 0x09, CHR 0x0A, CHR 0x0B, CHR 0x0C, CHR 0x0D])"

fun split_from :: "string \<Rightarrow> string \<Rightarrow> bool \<Rightarrow> string list" where
  "split_from cur [] in_run = [rev cur]"
| "split_from cur (c # cs) in_run =
     (if is_space c then (if in_run then split_from cur cs True
                          else rev cur # split_from [] cs True)
      else split_from (c # cur) cs False)"

definition split_spaces :: "string \<Rightarrow> string list" where
  "split_spaces s = split_from [] s False"

text \<open>
  \<^verbatim>\<open>searchPost\<close> and \<^verbatim>\<open>searchNote\<close>: \<^verbatim>\<open>const { keyword, page, size } = query\<close>.
  \<open>regExp\<close> is the runtime's \<^verbatim>\<open>new RegExp(String(item), 'ig')\<close>, as the test that the
  expression performs. Neither handler takes \<^verbatim>\<open>isMaster\<close>, and neither filter has a
  condition on \<^verbatim>\<open>hide\<close> or \<^verbatim>\<open>password\<close>.
\<close>

definition search_filter :: "(string \<Rightarrow> string \<Rightarrow> bool) \<Rightarrow> string \<Rightarrow> query_filter" where
  "search_filter regExp keyword =
     (let keywordArr = map regExp (split_spaces keyword)
      in [(''$or'', AnyOf [[(''title'', CIn keywordArr)], [(''text'', CIn keywordArr)]])])"

definition searchPost ::
  "(query_filter \<Rightarrow> PageOptions \<Rightarrow> 'r) \<Rightarrow> (string \<Rightarrow> string \<Rightarrow> bool) \<Rightarrow> SearchQuery \<Rightarrow> 'r" where
  "searchPost service regExp q =
     service (search_filter regExp (s_keyword q))
       \<lparr> opt_limit = s_size q,
         opt_skip = js_skip (s_page q) (s_size q),
         opt_select = Some ''_id title created modified categoryId'',
         opt_sort = None,
         opt_populate = Some ''categoryId'' \<rparr>"

definition searchNote ::
  "(query_filter \<Rightarrow> PageOptions \<Rightarrow> 'r) \<Rightarrow> (string \<Rightarrow> string \<Rightarrow> bool) \<Rightarrow> SearchQuery \<Rightarrow> 'r" where
  "searchNote service regExp q =
     service (search_filter regExp (s_keyword q))
       \<lparr> opt_limit = s_size q,
         opt_skip = js_skip (s_page q) (s_size q),
         opt_select = Some ''_id title created modified nid'',
         opt_sort = None,
         opt_populate = None \<rparr>"

text \<open>
  The listings of the analyze controller:
  \<^verbatim>\<open>{ limit: ~~size, skip: (~~page - 1) * ~~size }\<close> with
  \<^verbatim>\<open>const { page = 1, size = 50 } = query\<close>. \<open>service\<close> is
  \<^verbatim>\<open>this.service.getRangeAnalyzeData\<close>; the dates \<^verbatim>\<open>new Date()\<close>, \<^verbatim>\<open>getTodayEarly(today)\<close>
  and \<^verbatim>\<open>getWeekStart(today)\<close> are the runtime's and come as arguments.
\<close>

record RangeOptions =
  r_limit :: int
  r_skip :: jsnum

definition analyze_options :: "AnalyzeQuery \<Rightarrow> RangeOptions" where
  "analyze_options q =
     (let page = (case a_page q of None \<Rightarrow> Num 1 | Some p \<Rightarrow> p);
          sz = (case a_size q of None \<Rightarrow> Num 50 | Some s \<Rightarrow> s)
      in \<lparr> r_limit = to_int32 sz,
           r_skip = js_mul (js_sub (Num (to_int32 page)) (Num 1)) (Num (to_int32 sz)) \<rparr>)"

definition getAnalyzeToday ::
  "(int \<Rightarrow> int \<Rightarrow> RangeOptions \<Rightarrow> 'r) \<Rightarrow> int \<Rightarrow> int \<Rightarrow> AnalyzeQuery \<Rightarrow> 'r" where
  "getAnalyzeToday service todayEarly today q = service todayEarly today (analyze_options q)"

definition getAnalyzeWeek ::
  "(int \<Rightarrow> int \<Rightarrow> RangeOptions \<Rightarrow> 'r) \<Rightarrow> int \<Rightarrow> int \<Rightarrow> AnalyzeQuery \<Rightarrow> 'r" where
  "getAnalyzeWeek service weekStart today q = service weekStart today (analyze_options q)"

text \<open>
  \<^verbatim>\<open>getAnalyze\<close>: \<^verbatim>\<open>const { from, to = new Date(), page = 1, size = 50 } = query\<close>; the
  result is \<^verbatim>\<open>{ ...data, total, today_ips: ips }\<close>, where \<open>call_time\<close> is what
  \<^verbatim>\<open>getCallTime()\<close> returned and \<open>ips\<close> what was read and parsed from the cache.
\<close>

definition getAnalyze ::
  "(int option \<Rightarrow> int \<Rightarrow> RangeOptions \<Rightarrow> 'r) \<Rightarrow> int \<Rightarrow> 't \<Rightarrow> 'i \<Rightarrow> AnalyzeQuery \<Rightarrow> 'r \<times> 't \<times> 'i" where
  "getAnalyze service now call_time ips q =
     (service (a_from q) (case a_to q of None \<Rightarrow> now | Some t \<Rightarrow> t) (analyze_options q),
      call_time, ips)"

text \<open>
  Modelled from the spec: \<^verbatim>\<open>findWithPaginator(filter, options)\<close> of the persistence
  gateway (\<^verbatim>\<open>BaseService\<close>, missing from the sources) "executes a filtered, sorted,
  projected query bounded by limit/skip" and computes "the total count of documents
  matching filter (ignoring limit/skip)". Sorting is by the numeric value of the sort
  field; projection and population do not change which documents are returned; a skip
  or limit that is not an integer bounds nothing.
\<close>

record 'a PageResult =
  page_data :: "'a list"
  page_total :: nat

definition num_rank :: "jsval \<Rightarrow> int" where
  "num_rank v = (case v of VNum n \<Rightarrow> n | _ \<Rightarrow> 0)"

definition window :: "PageOptions \<Rightarrow> 'a list \<Rightarrow> 'a list" where
  "window opts xs =
     (let ys = (case opt_skip opts of Num k \<Rightarrow> drop (nat k) xs | _ \<Rightarrow> xs)
      in (case opt_limit opts of Some (Num l) \<Rightarrow> take (nat l) ys | _ \<Rightarrow> ys))"

definition findWithPaginator ::
  "('a \<Rightarrow> string \<Rightarrow> jsval) \<Rightarrow> 'a list \<Rightarrow> query_filter \<Rightarrow> PageOptions \<Rightarrow> 'a PageResult" where
  "findWithPaginator fld coll flt opts =
     (let hits = filter (\<lambda>x. matches (fld x) flt) coll
      in \<lparr> page_data =
             window opts
               (case opt_sort opts of
                  None \<Rightarrow> hits
                | Some (f, dir) \<Rightarrow> sort_key (\<lambda>x. dir * num_rank (fld x f)) hits),
           page_total = length hits \<rparr>)"

section \<open>The pager of the comment list\<close>

text \<open>
  The class \<^verbatim>\<open>Pager\<close> (\<^verbatim>\<open>comments/dto/pager.dto\<close>). A field holds what
  \<^verbatim>\<open>@Transform((val) => parseInt(val))\<close> makes of the query parameter, \<open>None\<close> when the
  parameter is absent. \<open>validate_Pager\<close> is the check that the decorators declare:
  \<^verbatim>\<open>@IsOptional()\<close> skips the checks of an absent field, \<^verbatim>\<open>@IsNumber()\<close> refuses
  \<^verbatim>\<open>NaN\<close> and the infinities, \<^verbatim>\<open>@Min(1)\<close> and \<^verbatim>\<open>@Max(50)\<close> bound the value,
  \<^verbatim>\<open>@IsEnum([0, 1, 2])\<close> admits these three values. It accepts or refuses an object; it
  never changes one. What runs it before a handler is not among the sources.
\<close>

record Pager =
  pg_page :: "jsnum option"
  pg_size :: "jsnum option"
  pg_state :: "jsnum option"

definition valid_page :: "jsnum option \<Rightarrow> bool" where
  "valid_page v = (case v of None \<Rightarrow> True | Some (Num n) \<Rightarrow> 1 \<le> n | _ \<Rightarrow> False)"

definition valid_size :: "jsnum option \<Rightarrow> bool" where
  "valid_size v = (case v of None \<Rightarrow> True | Some (Num n) \<Rightarrow> 1 \<le> n \<and> n \<le> 50 | _ \<Rightarrow> False)"

definition valid_state :: "jsnum option \<Rightarrow> bool" where
  "valid_state v = (case v of Some (Num n) \<Rightarrow> n = 0 \<or> n = 1 \<or> n = 2 | _ \<Rightarrow> False)"

definition validate_Pager :: "Pager \<Rightarrow> error + Pager" where
  "validate_Pager q =
     (if valid_page (pg_page q) \<and> valid_size (pg_size q) \<and> valid_state (pg_state q)
      then Inr q else Inl BadInput)"

text \<open>
  \<^verbatim>\<open>getRecentlyComments\<close>: \<^verbatim>\<open>const { size = 10, page = 1, state = 0 } = query\<close>, then
  \<^verbatim>\<open>this.commentService.getComments({ size, page, state })\<close> (\<^verbatim>\<open>getRecently\<close> in the
  older revision). The service's query is not among the sources.
\<close>

record RecentArgs =
  arg_size :: jsnum
  arg_page :: jsnum
  arg_state :: jsnum

definition getRecentlyComments :: "(RecentArgs \<Rightarrow> 'r) \<Rightarrow> Pager \<Rightarrow> 'r" where
  "getRecentlyComments service query =
     service \<lparr> arg_size = (case pg_size query of None \<Rightarrow> Num 10 | Some s \<Rightarrow> s),
               arg_page = (case pg_page query of None \<Rightarrow> Num 1 | Some p \<Rightarrow> p),
               arg_state = (case pg_state query of None \<Rightarrow> Num 0 | Some s \<Rightarrow> s) \<rparr>"

section \<open>A small store\<close>

text \<open>
  A visible post with one top-level comment on it, a hidden post, a note behind a
  password, and a guest's request to reply to the comment. The author-name check
  refuses the name of the site owner; no target allows comments.
\<close>

definition sample_post :: Content where
  "sample_post =
     \<lparr> t_id = 1, title = ''hello'', content_text = ''first post'', hide = False,
       password = None, created = 0 \<rparr>"

definition sample_root :: Comment where
  "sample_root =
     \<lparr> c_id = 2, ref = 1, refType = Post, parent = None, children = [], commentsIndex = 0,
       key = ''2'', state = Unread, author = Some ''A'', body_text = Some ''hi'',
       mail = None, url = None, ip = None \<rparr>"

definition sample_hidden :: Content where
  "sample_hidden =
     \<lparr> t_id = 4, title = ''draft'', content_text = ''not yet'', hide = True,
       password = None, created = 1 \<rparr>"

definition sample_note :: Content where
  "sample_note =
     \<lparr> t_id = 5, title = ''diary'', content_text = ''dear diary'', hide = False,
       password = Some ''pw'', created = 2 \<rparr>"

definition sample_db :: db where
  "sample_db =
     \<lparr> postModel = [sample_post, sample_hidden], noteModel = [sample_note],
       commentModel = [sample_root] \<rparr>"

definition sample_env :: env where
  "sample_env =
     \<lparr> ValidAuthorName = (\<lambda>a. a \<noteq> Some ''master''), allowComment = (\<lambda>i t. False) \<rparr>"

definition sample_body :: PartialComment where
  "sample_body = empty_partial \<lparr> p_author := Some ''B'', p_text := Some ''yo'' \<rparr>"

definition sample_request :: request where
  "sample_request =
     \<lparr> params_id = 2, body = sample_body, isMaster = False,
       ipLocation = \<lparr> ip_addr = ''127.0.0.1'' \<rparr>, query_ref = None \<rparr>"

definition sample_query :: ListQuery where
  "sample_query =
     \<lparr> q_page = Some (Num 3), q_size = Some (Num 10), q_select = None, q_year = None,
       q_sortBy = None, q_sortOrder = None \<rparr>"

text \<open>
  A gateway that answers a call with the call itself, and the test of a regular
  expression whose source is a plain lower-case word, on lower-case text: the word
  occurs in the text.
\<close>

definition recorded :: "query_filter \<Rightarrow> PageOptions \<Rightarrow> query_filter \<times> PageOptions" where
  "recorded flt opts = (flt, opts)"

fun starts_with :: "string \<Rightarrow> string \<Rightarrow> bool" where
  "starts_with [] s = True"
| "starts_with (p # ps) [] = False"
| "starts_with (p # ps) (c # cs) = (p = c \<and> starts_with ps cs)"

fun occurs_in :: "string \<Rightarrow> string \<Rightarrow> bool" where
  "occurs_in w [] = (w = [])"
| "occurs_in w (c # cs) = (starts_with w (c # cs) \<or> occurs_in w cs)"

section \<open>Properties\<close>

subsection \<open>Evaluation on the small store\<close>

lemmas sample_defs = sample_post_def sample_hidden_def sample_note_def sample_root_def
  sample_db_def sample_env_def sample_body_def sample_request_def sample_query_def

lemmas reply_defs = replyByCid_def reply_lookup_def reply_model_def reply_update_def reply_key_def
  createNew_def updateOne_def applyUpdate_def findById_def findContent_def populate_ref_def
  targetModel_def fresh_id_def used_ids_def spread_def orElse_def empty_partial_def ip_partial_def
  show_nat.simps digit_char_def Let_def

lemmas comment_defs = comment_def createComment_def createNew_def Master_def findContent_def
  targetModel_def fresh_id_def used_ids_def spread_def orElse_def empty_partial_def ip_partial_def
  show_nat.simps digit_char_def Let_def

lemmas number_defs = js_skip_def js_number_def to_double_def round53_def to_int32_def
  bitlen.simps Let_def

lemmas listing_defs = getAll_def getNotes_def getCommentsByRefId_def searchPost_def searchNote_def
  getAnalyzeToday_def getAnalyzeWeek_def getAnalyze_def analyze_options_def search_filter_def
  split_spaces_def is_space_def getCommentsByRefId_filter_def
  findWithPaginator_def window_def list_condition_def
  addConditionToSeeHideContent_def yearCondition_def obj_spread_def matches_def match_clause_def
  match_cond_def content_field_def opt_val_def sort_option_def num_rank_def recorded_def

lemmas pager_defs = getRecentlyComments_def validate_Pager_def valid_page_def valid_size_def
  valid_state_def

subsection \<open>Generated ids are new\<close>

lemma fold_max_ge: "(a::nat) \<le> fold max xs a"
  by (induction xs arbitrary: a) (auto intro: order_trans [OF max.cobounded2])

lemma fold_max_mem: "x \<in> set xs \<Longrightarrow> (x::nat) \<le> fold max xs a"
proof (induction xs arbitrary: a)
  case Nil
  then show ?case by simp
next
  case (Cons y ys)
  show ?case
  proof (cases "x = y")
    case True
    have "max y a \<le> fold max ys (max y a)" by (rule fold_max_ge)
    with True show ?thesis by simp
  next
    case False
    with Cons show ?thesis by simp
  qed
qed

lemma used_lt_fresh: "i \<in> set (used_ids cs) \<Longrightarrow> i < fresh_id cs"
  by (simp add: fresh_id_def fold_max_mem less_Suc_eq_le)

lemma findById_Some_used: "findById cs i = Some c \<Longrightarrow> i \<in> set (used_ids cs)"
  by (induction cs) (auto simp: findById_def used_ids_def split: if_splits)

lemma findById_Some_id: "findById cs i = Some c \<Longrightarrow> c_id c = i"
  by (induction cs) (auto simp: findById_def split: if_splits)

lemma findById_Some_children_used:
  "findById cs i = Some c \<Longrightarrow> j \<in> set (children c) \<Longrightarrow> j \<in> set (used_ids cs)"
  by (induction cs) (auto simp: findById_def used_ids_def split: if_splits)

lemma findById_fresh: "findById cs (fresh_id cs) = None"
proof (cases "findById cs (fresh_id cs)")
  case None
  then show ?thesis .
next
  case (Some c)
  then have "fresh_id cs < fresh_id cs"
    by (intro used_lt_fresh findById_Some_used)
  then show ?thesis by simp
qed

subsection \<open>Lookups after an insert or an update\<close>

lemma findById_append:
  "findById (cs @ [c]) i =
     (case findById cs i of Some x \<Rightarrow> Some x | None \<Rightarrow> if c_id c = i then Some c else None)"
  by (induction cs) (auto simp: findById_def)

lemma findById_updateFirst_same:
  "\<forall>c. c_id (f c) = c_id c \<Longrightarrow> findById (updateFirst i f cs) i = map_option f (findById cs i)"
  by (induction cs) (auto simp: findById_def)

lemma findById_updateFirst_other:
  "\<forall>c. c_id (f c) = c_id c \<Longrightarrow> j \<noteq> i \<Longrightarrow> findById (updateFirst i f cs) j = findById cs j"
  by (induction cs) (auto simp: findById_def)

lemma updateFirst_append:
  "findById cs i = Some P \<Longrightarrow> updateFirst i f (cs @ [c]) = updateFirst i f cs @ [c]"
  by (induction cs) (auto simp: findById_def split: if_splits)

lemma applyUpdate_id: "c_id (applyUpdate u c) = c_id c"
  by (simp add: applyUpdate_def)

lemma populate_ref_id: "populate_ref d P = Some t \<Longrightarrow> t_id t = ref P"
  by (auto simp: populate_ref_def findContent_def dest: find_Some_iff [THEN iffD1])

subsection \<open>What a successful reply did\<close>

lemma createNew_Inr:
  assumes "createNew m d = Inr (c, d1)"
  shows "c_id c = fresh_id (commentModel d)"
    and "p_key m = Some (key c)"
    and "p_ref m = Some (ref c)"
    and "p_refType m = Some (refType c)"
    and "children c = []"
    and "commentsIndex c = 0"
    and "d1 = d \<lparr> commentModel := commentModel d @ [c] \<rparr>"
  using assms by (auto simp: createNew_def Let_def split: option.splits)

lemma reply_lookup_Inr:
  assumes "reply_lookup e d rq = Inr (P, tid)"
  shows "findById (commentModel d) (params_id rq) = Some P"
    and "\<exists>t. populate_ref d P = Some t \<and> t_id t = tid"
    and "isMaster rq \<or> ValidAuthorName e (p_author (body rq))"
  using assms by (auto simp: reply_lookup_def split: if_splits option.splits)

lemma replyByCid_Inr:
  assumes "replyByCid rv e d rq = (Inr r, d')"
  shows "\<exists>P tid c. reply_lookup e d rq = Inr (P, tid)
           \<and> createNew (reply_model rv P tid rq) d
               = Inr (c, d \<lparr> commentModel := commentModel d @ [c] \<rparr>)
           \<and> d' = updateOne (c_id P) (reply_update rv P c)
                    (d \<lparr> commentModel := commentModel d @ [c] \<rparr>)"
proof -
  from assms obtain P tid where L: "reply_lookup e d rq = Inr (P, tid)"
    by (auto simp: replyByCid_def split: sum.splits)
  with assms obtain c d1 where C: "createNew (reply_model rv P tid rq) d = Inr (c, d1)"
    and D: "d' = updateOne (c_id P) (reply_update rv P c) d1"
    by (auto simp: replyByCid_def split: sum.splits)
  from createNew_Inr(7) [OF C] have "d1 = d \<lparr> commentModel := commentModel d @ [c] \<rparr>" .
  with L C D show ?thesis by blast
qed

lemma reply_model_key: "p_key (reply_model rv P tid rq) = Some (reply_key rv P)"
  by (simp add: reply_model_def)

text \<open>
  A successful reply to \<open>P\<close>, in either revision: the child is a new document whose key
  is \<open>reply_key rv P\<close>; afterwards the parent's counter is one higher and its child list
  has the child's id appended, and holds it exactly once.
\<close>

lemma reply_creates_child:
  assumes found: "findById (commentModel d) i = Some P"
    and req: "params_id rq = i"
    and ok: "replyByCid rv e d rq = (Inr r, d')"
  shows "\<exists>c P'. findById (commentModel d) (c_id c) = None
            \<and> findById (commentModel d') (c_id c) = Some c
            \<and> key c = reply_key rv P
            \<and> findById (commentModel d') i = Some P'
            \<and> commentsIndex P' = commentsIndex P + 1
            \<and> children P' = children P @ [c_id c]
            \<and> count_list (children P') (c_id c) = 1"
proof -
  from replyByCid_Inr [OF ok] obtain Q tid c where
    L: "reply_lookup e d rq = Inr (Q, tid)" and
    C: "createNew (reply_model rv Q tid rq) d
          = Inr (c, d \<lparr> commentModel := commentModel d @ [c] \<rparr>)" and
    D: "d' = updateOne (c_id Q) (reply_update rv Q c)
          (d \<lparr> commentModel := commentModel d @ [c] \<rparr>)"
    by blast
  from reply_lookup_Inr(1) [OF L] found req have Q: "Q = P" by simp
  have idP: "c_id P = i" using found by (rule findById_Some_id)
  have cid: "c_id c = fresh_id (commentModel d)" using C by (rule createNew_Inr(1))
  have k: "key c = reply_key rv P"
    using createNew_Inr(2) [OF C] Q by (simp add: reply_model_key)
  have fresh: "findById (commentModel d) (c_id c) = None"
    by (simp add: cid findById_fresh)
  have ne: "c_id c \<noteq> i" using fresh found by auto
  let ?u = "applyUpdate (reply_update rv P c)"
  have cm: "commentModel d' = updateFirst i ?u (commentModel d) @ [c]"
    using D Q idP found by (simp add: updateOne_def updateFirst_append)
  have pres: "\<forall>x. c_id (?u x) = c_id x" by (simp add: applyUpdate_id)
  have child: "findById (commentModel d') (c_id c) = Some c"
    using fresh ne pres by (simp add: cm findById_append findById_updateFirst_other)
  have par: "findById (commentModel d') i = Some (?u P)"
    using found pres by (simp add: cm findById_append findById_updateFirst_same)
  have notin: "c_id c \<notin> set (children P)"
  proof
    assume "c_id c \<in> set (children P)"
    then have "c_id c \<in> set (used_ids (commentModel d))"
      using found by (intro findById_Some_children_used)
    then have "c_id c < fresh_id (commentModel d)" by (rule used_lt_fresh)
    with cid show False by simp
  qed
  have idx: "commentsIndex (?u P) = commentsIndex P + 1"
    by (simp add: applyUpdate_def reply_update_def)
  have ch: "children (?u P) = children P @ [c_id c]"
    by (simp add: applyUpdate_def reply_update_def)
  have cnt: "count_list (children (?u P)) (c_id c) = 1"
    using notin by (simp add: ch count_list_0_iff)
  from fresh child k par idx ch cnt show ?thesis by blast
qed

text \<open>
  C1. A reply to a parent with \<^verbatim>\<open>commentsIndex = n\<close> is to get the key
  \<^verbatim>\<open>P.key + "#" + n\<close>. On the small store the parent has key \<open>''2''\<close> and counter 0: the
  \<^verbatim>\<open>apps/server\<close> controller stores the reply under \<open>''2#0''\<close>, the controller under
  \<^verbatim>\<open>src/shared/comments\<close>, which computes \<^verbatim>\<open>commentIndex + 1\<close>, under \<open>''2#1''\<close>.
\<close>

theorem replyByCid_legacy_key:
  "findById (commentModel sample_db) 2 = Some sample_root
   \<and> key sample_root = ''2'' \<and> commentsIndex sample_root = 0
   \<and> fst (replyByCid Legacy sample_env sample_db sample_request) = Inr ReplySuccess
   \<and> map key (commentModel (snd (replyByCid Legacy sample_env sample_db sample_request)))
       = [''2'', ''2#1'']
   \<and> map key (commentModel (snd (replyByCid Current sample_env sample_db sample_request)))
       = [''2'', ''2#0'']"
  by (simp add: sample_defs reply_defs)

text \<open>
  C2. A comment on a target whose allow-comment predicate is false is to fail with
  Forbidden and to create nothing. On the small store no target allows comments, yet a
  guest's comment on post 1 is not refused and the collection gains the document 3: the
  guard reads \<^verbatim>\<open>!Master\<close>, which is false for every caller.
\<close>

theorem comment_not_forbidden:
  "\<not> isMaster (sample_request \<lparr> params_id := 1 \<rparr>)
   \<and> \<not> allowComment sample_env 1 Post
   \<and> fst (comment sample_env sample_db (sample_request \<lparr> params_id := 1 \<rparr>)) \<noteq> Inl Forbidden
   \<and> map c_id (commentModel sample_db) = [2]
   \<and> map c_id (commentModel (snd (comment sample_env sample_db
                                     (sample_request \<lparr> params_id := 1 \<rparr>))))
       = [2, 3]"
  by (simp add: sample_defs comment_defs)

text \<open>No request at all is answered with Forbidden by \<open>comment\<close>.\<close>

lemma comment_never_forbidden: "fst (comment e d rq) \<noteq> Inl Forbidden"
  by (auto simp: comment_defs split: option.splits sum.splits)

subsection \<open>Numbers that stay exact\<close>

lemma to_double_small: "\<bar>n\<bar> \<le> 2 ^ 53 \<Longrightarrow> to_double n = Num n"
  by (simp add: to_double_def)

lemma to_int32_small: "- (2 ^ 31) \<le> n \<Longrightarrow> n < 2 ^ 31 \<Longrightarrow> to_int32 (Num n) = n"
  by (simp add: to_int32_def)

lemma js_skip_exact:
  assumes "1 \<le> page" and "1 \<le> sz" and "(page - 1) * sz \<le> 2 ^ 53"
  shows "js_skip (Some (Num page)) (Some (Num sz)) = Num ((page - 1) * sz)"
proof -
  have nn: "0 \<le> page - 1" using assms(1) by simp
  have "(page - 1) * 1 \<le> (page - 1) * sz"
    using nn assms(2) by (intro mult_left_mono) simp_all
  with assms(3) have le: "page - 1 \<le> 2 ^ 53" by simp
  have a: "to_double (page - 1) = Num (page - 1)"
    using nn le by (intro to_double_small) simp
  have "0 \<le> (page - 1) * sz" using nn assms(2) by simp
  with assms(3) have b: "to_double ((page - 1) * sz) = Num ((page - 1) * sz)"
    by (intro to_double_small) simp
  show ?thesis by (simp add: js_skip_def js_number_def a b)
qed

lemma analyze_skip_exact:
  assumes "1 \<le> page" and "page < 2 ^ 31" and "1 \<le> sz" and "sz \<le> 50"
  shows "js_mul (js_sub (Num (to_int32 (Num page))) (Num 1)) (Num (to_int32 (Num sz)))
           = Num ((page - 1) * sz)"
proof -
  have p: "to_int32 (Num page) = page" using assms(1,2) by (intro to_int32_small) simp_all
  have s: "to_int32 (Num sz) = sz" using assms(3,4) by (intro to_int32_small) simp_all
  have "(page - 1) * sz \<le> 2 ^ 31 * 50"
    using assms by (intro mult_mono) simp_all
  then have "(page - 1) * sz \<le> 2 ^ 53" by simp
  from js_skip_exact [OF assms(1,3) this] show ?thesis
    by (simp add: js_skip_def js_number_def p s)
qed

subsection \<open>The size of a page\<close>

text \<open>
  C3, as the code has it. No paged listing clamps the size. \<^verbatim>\<open>getAll\<close>, \<^verbatim>\<open>getNotes\<close>,
  \<^verbatim>\<open>getCommentsByRefId\<close>, \<^verbatim>\<open>searchPost\<close> and \<^verbatim>\<open>searchNote\<close> call their service with the
  size they received as \<^verbatim>\<open>limit\<close>, unchanged (\<^verbatim>\<open>getCommentsByRefId\<close> with 10 for a
  missing size); the three analyze listings call theirs with \<^verbatim>\<open>~~size\<close>, which is the
  size itself for every size within 32 bits; \<^verbatim>\<open>getRecentlyComments\<close> hands the size to
  the comment service unchanged. All this holds for every size, also outside 1..50.
  The one bound on the size is the one the class \<^verbatim>\<open>Pager\<close> declares: its check refuses
  a size outside 1..50, and it never changes the object it accepts.
\<close>

theorem size_never_clamped:
  "(\<exists>flt opts. (\<forall>service. getAll service newDate m q = service flt opts)
       \<and> opt_limit opts = q_size q)
   \<and> (\<exists>flt opts. (\<forall>service. getNotes service newDate m q = service flt opts)
       \<and> opt_limit opts = q_size q)
   \<and> (\<exists>flt opts. (\<forall>service. getCommentsByRefId rv service i q = service flt opts)
       \<and> opt_limit opts = Some (case q_size q of None \<Rightarrow> Num 10 | Some s \<Rightarrow> s))
   \<and> (\<exists>flt opts. (\<forall>service. searchPost service regExp sq = service flt opts)
       \<and> opt_limit opts = s_size sq)
   \<and> (\<exists>flt opts. (\<forall>service. searchNote service regExp sq = service flt opts)
       \<and> opt_limit opts = s_size sq)
   \<and> (\<exists>opts. (\<forall>service. getAnalyzeToday service t0 t1 aq = service t0 t1 opts)
       \<and> (\<forall>service. getAnalyzeWeek service t0 t1 aq = service t0 t1 opts)
       \<and> (\<forall>service. fst (getAnalyze service t1 call_time ips aq)
             = service (a_from aq) (case a_to aq of None \<Rightarrow> t1 | Some t \<Rightarrow> t) opts)
       \<and> r_limit opts = to_int32 (case a_size aq of None \<Rightarrow> Num 50 | Some s \<Rightarrow> s))
   \<and> (- (2 ^ 31) \<le> n \<and> n < 2 ^ 31 \<longrightarrow> to_int32 (Num n) = n)
   \<and> (\<exists>args. (\<forall>service. getRecentlyComments service pq = service args)
       \<and> arg_size args = (case pg_size pq of None \<Rightarrow> Num 10 | Some s \<Rightarrow> s))
   \<and> (pg_size pq = Some (Num n) \<and> (n < 1 \<or> 50 < n) \<longrightarrow> validate_Pager pq = Inl BadInput)
   \<and> (\<forall>pq'. validate_Pager pq = Inr pq' \<longrightarrow> pq' = pq)"
proof -
  have a: "\<exists>flt opts. (\<forall>service. getAll service newDate m q = service flt opts)
       \<and> opt_limit opts = q_size q"
    unfolding getAll_def by (intro exI conjI allI) (rule refl, simp)
  have b: "\<exists>flt opts. (\<forall>service. getNotes service newDate m q = service flt opts)
       \<and> opt_limit opts = q_size q"
    unfolding getNotes_def by (intro exI conjI allI) (rule refl, simp)
  have c: "\<exists>flt opts. (\<forall>service. getCommentsByRefId rv service i q = service flt opts)
       \<and> opt_limit opts = Some (case q_size q of None \<Rightarrow> Num 10 | Some s \<Rightarrow> s)"
    unfolding getCommentsByRefId_def Let_def by (intro exI conjI allI) (rule refl, simp)
  have d: "\<exists>flt opts. (\<forall>service. searchPost service regExp sq = service flt opts)
       \<and> opt_limit opts = s_size sq"
    unfolding searchPost_def by (intro exI conjI allI) (rule refl, simp)
  have e: "\<exists>flt opts. (\<forall>service. searchNote service regExp sq = service flt opts)
       \<and> opt_limit opts = s_size sq"
    unfolding searchNote_def by (intro exI conjI allI) (rule refl, simp)
  have f: "\<exists>opts. (\<forall>service. getAnalyzeToday service t0 t1 aq = service t0 t1 opts)
       \<and> (\<forall>service. getAnalyzeWeek service t0 t1 aq = service t0 t1 opts)
       \<and> (\<forall>service. fst (getAnalyze service t1 call_time ips aq)
             = service (a_from aq) (case a_to aq of None \<Rightarrow> t1 | Some t \<Rightarrow> t) opts)
       \<and> r_limit opts = to_int32 (case a_size aq of None \<Rightarrow> Num 50 | Some s \<Rightarrow> s)"
    by (rule exI [of _ "analyze_options aq"])
       (simp add: getAnalyzeToday_def getAnalyzeWeek_def getAnalyze_def analyze_options_def Let_def)
  have g: "- (2 ^ 31) \<le> n \<and> n < 2 ^ 31 \<longrightarrow> to_int32 (Num n) = n"
    by (simp add: to_int32_small)
  have h: "\<exists>args. (\<forall>service. getRecentlyComments service pq = service args)
       \<and> arg_size args = (case pg_size pq of None \<Rightarrow> Num 10 | Some s \<Rightarrow> s)"
    unfolding getRecentlyComments_def by (intro exI conjI allI) (rule refl, simp)
  have k: "pg_size pq = Some (Num n) \<and> (n < 1 \<or> 50 < n) \<longrightarrow> validate_Pager pq = Inl BadInput"
    by (auto simp: validate_Pager_def valid_size_def)
  have l: "\<forall>pq'. validate_Pager pq = Inr pq' \<longrightarrow> pq' = pq"
    by (auto simp: validate_Pager_def split: if_splits)
  show ?thesis by (intro conjI) (rule a b c d e f g h k l)+
qed

theorem size_never_clamped_witness:
  "opt_limit (snd (getAll recorded (\<lambda>y mo da. y) False (sample_query \<lparr> q_size := Some (Num 1000) \<rparr>)))
     = Some (Num 1000)
   \<and> opt_limit (snd (searchPost recorded occurs_in
        \<lparr> s_keyword = ''draft'', s_page = Some (Num 1), s_size = Some (Num 0) \<rparr>))
     = Some (Num 0)
   \<and> to_int32 (Num 51) = 51
   \<and> validate_Pager \<lparr> pg_page = Some (Num 2), pg_size = Some (Num 51), pg_state = Some (Num 0) \<rparr>
     = Inl BadInput"
proof -
  let ?q = "sample_query \<lparr> q_size := Some (Num 1000) \<rparr>"
  let ?sq = "\<lparr> s_keyword = ''draft'', s_page = Some (Num 1), s_size = Some (Num 0) \<rparr>"
  let ?pq = "\<lparr> pg_page = Some (Num 2), pg_size = Some (Num 51), pg_state = Some (Num 0) \<rparr>"
  note t = size_never_clamped [where q = ?q and sq = ?sq and pq = ?pq and n = 51
      and newDate = "\<lambda>y mo da. y" and m = False and regExp = occurs_in]
  note t1 = t [THEN conjunct1]
  note t4 = t [THEN conjunct2, THEN conjunct2, THEN conjunct2, THEN conjunct1]
  note t7 = t [THEN conjunct2, THEN conjunct2, THEN conjunct2, THEN conjunct2, THEN conjunct2,
      THEN conjunct2, THEN conjunct1]
  note t9 = t [THEN conjunct2, THEN conjunct2, THEN conjunct2, THEN conjunct2, THEN conjunct2,
      THEN conjunct2, THEN conjunct2, THEN conjunct2, THEN conjunct1]
  from t1 obtain flt opts where
    "\<forall>service :: _ \<Rightarrow> _ \<Rightarrow> query_filter \<times> PageOptions. getAll service (\<lambda>y mo da. y) False ?q = service flt opts"
    "opt_limit opts = q_size ?q" by auto
  then have a: "opt_limit (snd (getAll recorded (\<lambda>y mo da. y) False ?q)) = Some (Num 1000)"
    by (simp add: recorded_def sample_defs)
  from t4 obtain flt' opts' where
    "\<forall>service :: _ \<Rightarrow> _ \<Rightarrow> query_filter \<times> PageOptions. searchPost service occurs_in ?sq = service flt' opts'"
    "opt_limit opts' = s_size ?sq" by auto
  then have b: "opt_limit (snd (searchPost recorded occurs_in ?sq)) = Some (Num 0)"
    by (simp add: recorded_def)
  from t7 have c: "to_int32 (Num 51) = 51" by simp
  from t9 have d: "validate_Pager ?pq = Inl BadInput" by simp
  show ?thesis by (intro conjI) (rule a b c d)+
qed

text \<open>
  C3 as stated fails: size 0 is not served as 1 and size 1000 is not served as 50.
  The listings query with limit 0 and limit 1000, and the check that \<^verbatim>\<open>Pager\<close> declares
  refuses both sizes.
\<close>

theorem size_never_clamped_counterexample:
  "opt_limit (snd (getAll recorded (\<lambda>y mo da. y) False (sample_query \<lparr> q_size := Some (Num 0) \<rparr>)))
     = Some (Num 0)
   \<and> opt_limit (snd (getAll recorded (\<lambda>y mo da. y) False
        (sample_query \<lparr> q_size := Some (Num 1000) \<rparr>)))
     = Some (Num 1000)
   \<and> r_limit (getAnalyzeToday (\<lambda>t0 t1 opts. opts) 0 1
        \<lparr> a_from = None, a_to = None, a_page = Some (Num 1), a_size = Some (Num 1000) \<rparr>)
     = 1000
   \<and> arg_size (getRecentlyComments (\<lambda>args. args)
        \<lparr> pg_page = Some (Num 1), pg_size = Some (Num 1000), pg_state = Some (Num 0) \<rparr>)
     = Num 1000
   \<and> validate_Pager \<lparr> pg_page = Some (Num 1), pg_size = Some (Num 0), pg_state = Some (Num 0) \<rparr>
     = Inl BadInput
   \<and> validate_Pager \<lparr> pg_page = Some (Num 1), pg_size = Some (Num 1000), pg_state = Some (Num 0) \<rparr>
     = Inl BadInput"
proof -
  have a: "opt_limit (snd (getAll recorded (\<lambda>y mo da. y) False
        (sample_query \<lparr> q_size := Some (Num 0) \<rparr>))) = Some (Num 0)"
    by (simp add: getAll_def recorded_def sample_defs)
  have b: "opt_limit (snd (getAll recorded (\<lambda>y mo da. y) False
        (sample_query \<lparr> q_size := Some (Num 1000) \<rparr>))) = Some (Num 1000)"
    by (simp add: getAll_def recorded_def sample_defs)
  have c: "r_limit (getAnalyzeToday (\<lambda>t0 t1 opts. opts) 0 1
        \<lparr> a_from = None, a_to = None, a_page = Some (Num 1), a_size = Some (Num 1000) \<rparr>)
     = 1000"
    by (simp add: getAnalyzeToday_def analyze_options_def to_int32_def Let_def)
  have d: "arg_size (getRecentlyComments (\<lambda>args. args)
        \<lparr> pg_page = Some (Num 1), pg_size = Some (Num 1000), pg_state = Some (Num 0) \<rparr>)
     = Num 1000"
    by (simp add: getRecentlyComments_def)
  have e: "validate_Pager
        \<lparr> pg_page = Some (Num 1), pg_size = Some (Num 0), pg_state = Some (Num 0) \<rparr>
     = Inl BadInput"
    by (simp add: pager_defs)
  have f: "validate_Pager
        \<lparr> pg_page = Some (Num 1), pg_size = Some (Num 1000), pg_state = Some (Num 0) \<rparr>
     = Inl BadInput"
    by (simp add: pager_defs)
  show ?thesis by (intro conjI) (rule a b c d e f)+
qed

subsection \<open>Two replies in flight\<close>

lemma createNew_reply:
  "\<exists>c. createNew (reply_model rv Q tid rq) d = Inr (c, d \<lparr> commentModel := commentModel d @ [c] \<rparr>)
       \<and> c_id c = fresh_id (commentModel d)"
  by (simp add: createNew_def reply_model_def spread_def orElse_def ip_partial_def
      empty_partial_def Let_def split: option.splits)

lemma good_append:
  assumes "good e i d t" and "commentModel d' = commentModel d @ [c]"
  shows "good e i d' t"
  using assms by (cases t) (simp_all add: findById_append)

lemma good_own_used:
  assumes "good e i d t" and "j \<in> set (own t)"
  shows "j \<in> set (used_ids (commentModel d))"
  using assms by (cases t) (auto dest: findById_Some_used)

lemma good_update:
  assumes "good e i d t" and "i \<notin> set (own t)"
    and "commentModel d' = updateFirst i (applyUpdate u) (commentModel d)"
  shows "good e i d' t"
  using assms by (cases t) (simp_all add: findById_updateFirst_other applyUpdate_id)

lemma inv_sym: "reply_inv e i P0 d0 (t1, t2, d) \<Longrightarrow> reply_inv e i P0 d0 (t2, t1, d)"
  unfolding reply_inv_def by (clarsimp simp: add.commute Int_commute) blast

lemma populate_ref_cong:
  assumes "postModel d = postModel d0" and "noteModel d = noteModel d0"
    and "ref P = ref P0" and "refType P = refType P0"
  shows "populate_ref d P = populate_ref d0 P0"
  using assms by (simp add: populate_ref_def targetModel_def split: CommentRefTypes.splits)

text \<open>A step of the first task keeps the invariant and takes the task one stage on.\<close>

lemma step_first:
  assumes inv: "reply_inv e i P0 d0 (t1, t2, d)"
    and tgt: "populate_ref d0 P0 = Some t"
    and st: "reply_step rv e t1 d = (t1', d')"
  shows "reply_inv e i P0 d0 (t1', t2, d') \<and> stage t1' = min 3 (Suc (stage t1))"
proof -
  from inv obtain P where
    g1: "good e i d t1" and g2: "good e i d t2"
    and pm: "postModel d = postModel d0" and nm: "noteModel d = noteModel d0"
    and dist: "distinct (own t1 @ own t2)"
    and ni: "i \<notin> set (own t1 @ own t2)"
    and dj: "set (own t1 @ own t2) \<inter> set (children P0) = {}"
    and fP: "findById (commentModel d) i = Some P"
    and rP: "ref P = ref P0" and tP: "refType P = refType P0"
    and iP: "commentsIndex P = commentsIndex P0 + length (pushed t1 @ pushed t2)"
    and cP: "children P = children P0 @ pushed t1 @ pushed t2
             \<or> children P = children P0 @ pushed t2 @ pushed t1"
    unfolding reply_inv_def by auto
  have idP: "c_id P = i" using fP by (rule findById_Some_id)
  show ?thesis
  proof (cases t1)
    case (Pending rq)
    with g1 have rq: "params_id rq = i" "isMaster rq \<or> ValidAuthorName e (p_author (body rq))"
      by simp_all
    have "populate_ref d P = Some t"
      using populate_ref_cong [OF pm nm rP tP] tgt by simp
    with rq fP have "reply_lookup e d rq = Inr (P, t_id t)"
      by (auto simp: reply_lookup_def)
    with st Pending have t1': "t1' = Looked P (t_id t) rq" and d': "d' = d" by simp_all
    have "reply_inv e i P0 d0 (Looked P (t_id t) rq, t2, d)"
      unfolding reply_inv_def
      using g2 pm nm dist ni dj fP rP tP iP cP idP Pending by auto
    with t1' d' Pending show ?thesis by simp
  next
    case (Looked Q tid rq)
    with g1 have idQ: "c_id Q = i" by simp
    from createNew_reply [of rv Q tid rq d] obtain c where
      C: "createNew (reply_model rv Q tid rq) d
            = Inr (c, d \<lparr> commentModel := commentModel d @ [c] \<rparr>)"
      and cid: "c_id c = fresh_id (commentModel d)" by blast
    from st Looked C have t1': "t1' = Created Q c"
      and d': "d' = d \<lparr> commentModel := commentModel d @ [c] \<rparr>" by simp_all
    have cm: "commentModel d' = commentModel d @ [c]" using d' by simp
    have fresh: "findById (commentModel d) (c_id c) = None" by (simp add: cid findById_fresh)
    have nused: "c_id c \<notin> set (used_ids (commentModel d))"
      using used_lt_fresh [of "c_id c" "commentModel d"] cid by auto
    have ne: "c_id c \<noteq> i" using fresh fP by auto
    have n2: "c_id c \<notin> set (own t2)" using good_own_used [OF g2] nused by blast
    have sub: "set (children P0) \<subseteq> set (children P)" using cP by auto
    have n0: "c_id c \<notin> set (children P0)"
      using sub findById_Some_children_used [OF fP] nused by blast
    have g2': "good e i d' t2" using g2 cm by (rule good_append)
    have g1': "good e i d' (Created Q c)"
      using idQ fresh by (simp add: cm findById_append)
    have fP': "findById (commentModel d') i = Some P" using fP by (simp add: cm findById_append)
    have "reply_inv e i P0 d0 (Created Q c, t2, d')"
      unfolding reply_inv_def
      using g1' g2' pm nm dist ni dj fP' rP tP iP cP Looked ne n2 n0 d' by auto
    with t1' Looked show ?thesis by simp
  next
    case (Created Q c)
    with g1 have idQ: "c_id Q = i" and fc: "findById (commentModel d) (c_id c) = Some c"
      by simp_all
    let ?u = "reply_update rv Q c"
    from st Created have t1': "t1' = Replied c" and d': "d' = updateOne i ?u d"
      using idQ by auto
    have cm: "commentModel d' = updateFirst i (applyUpdate ?u) (commentModel d)"
      using d' by (simp add: updateOne_def)
    have pres: "\<forall>x. c_id (applyUpdate ?u x) = c_id x" by (simp add: applyUpdate_id)
    have ne: "c_id c \<noteq> i" using ni Created by simp
    have ni2: "i \<notin> set (own t2)" using ni by simp
    have g2': "good e i d' t2" using g2 ni2 cm by (rule good_update)
    have g1': "good e i d' (Replied c)"
      using fc ne pres by (simp add: cm findById_updateFirst_other)
    have fP': "findById (commentModel d') i = Some (applyUpdate ?u P)"
      using fP pres by (simp add: cm findById_updateFirst_same)
    have ch: "children P = children P0 @ pushed t2" using cP Created by simp
    have ch': "children (applyUpdate ?u P) = children P0 @ pushed t2 @ [c_id c]"
      using ch by (simp add: applyUpdate_def reply_update_def)
    have ix': "commentsIndex (applyUpdate ?u P) = commentsIndex P0 + Suc (length (pushed t2))"
      using iP Created by (simp add: applyUpdate_def reply_update_def)
    have rf': "ref (applyUpdate ?u P) = ref P0" "refType (applyUpdate ?u P) = refType P0"
      using rP tP by (simp_all add: applyUpdate_def)
    have pn: "postModel d' = postModel d0" "noteModel d' = noteModel d0"
      using pm nm d' by (simp_all add: updateOne_def)
    have "reply_inv e i P0 d0 (Replied c, t2, d')"
      unfolding reply_inv_def
      using g1' g2' pn dist ni dj fP' rf' ix' ch' Created by auto
    with t1' Created show ?thesis by simp
  next
    case (Replied c)
    with st have "t1' = t1" "d' = d" by auto
    with inv Replied show ?thesis by simp
  next
    case (Failed err)
    with g1 show ?thesis by simp
  qed
qed

lemma step_second:
  assumes inv: "reply_inv e i P0 d0 (t1, t2, d)"
    and tgt: "populate_ref d0 P0 = Some t"
    and st: "reply_step rv e t2 d = (t2', d')"
  shows "reply_inv e i P0 d0 (t1, t2', d') \<and> stage t2' = min 3 (Suc (stage t2))"
  using step_first [OF inv_sym [OF inv] tgt st] inv_sym by blast

lemma run2_inv:
  assumes "reply_inv e i P0 d0 (t1, t2, d)"
    and "populate_ref d0 P0 = Some t"
    and "run2 rv e sched (t1, t2, d) = (t1', t2', d')"
  shows "reply_inv e i P0 d0 (t1', t2', d')
       \<and> stage t1' = min 3 (stage t1 + count_list sched True)
       \<and> stage t2' = min 3 (stage t2 + count_list sched False)"
  using assms
proof (induction sched arbitrary: t1 t2 d)
  case Nil
  have "stage t1 \<le> 3" "stage t2 \<le> 3" by (cases t1; simp) (cases t2; simp)
  with Nil show ?case by simp
next
  case (Cons b bs)
  show ?case
  proof (cases b)
    case True
    obtain u du where st: "reply_step rv e t1 d = (u, du)" by (cases "reply_step rv e t1 d")
    from step_first [OF Cons.prems(1,2) st]
    have inv': "reply_inv e i P0 d0 (u, t2, du)" and sg: "stage u = min 3 (Suc (stage t1))"
      by simp_all
    from Cons.prems(3) True st have "run2 rv e bs (u, t2, du) = (t1', t2', d')" by simp
    from Cons.IH [OF inv' Cons.prems(2) this] sg True show ?thesis by auto
  next
    case False
    obtain u du where st: "reply_step rv e t2 d = (u, du)" by (cases "reply_step rv e t2 d")
    from step_second [OF Cons.prems(1,2) st]
    have inv': "reply_inv e i P0 d0 (t1, u, du)" and sg: "stage u = min 3 (Suc (stage t2))"
      by simp_all
    from Cons.prems(3) False st have "run2 rv e bs (t1, u, du) = (t1', t2', d')" by simp
    from Cons.IH [OF inv' Cons.prems(2) this] sg False show ?thesis by auto
  qed
qed

lemma stage_3_good:
  assumes "stage t = 3" and "good e i d t"
  shows "\<exists>c. t = Replied c"
  using assms by (cases t) simp_all

text \<open>The three steps of one task, run without interruption, are the handler.\<close>

lemma replyByCid_as_steps:
  "(case reply_step rv e (Pending rq) d of
      (a, d1) \<Rightarrow> (case reply_step rv e a d1 of (b, d2) \<Rightarrow> snd (reply_step rv e b d2)))
   = snd (replyByCid rv e d rq)"
  by (auto simp: replyByCid_def split: sum.splits prod.splits)

text \<open>
  C4. Two replies to the same parent \<open>P\<close>, their steps interleaved in any order that
  lets both finish (a reply has three steps: look up, create, update the parent): both
  end replied, the parent's \<^verbatim>\<open>commentsIndex\<close> has grown by exactly 2, and its child
  list is the old one followed by the two new, different child ids, in the order of the
  two updates. Here \<open>P\<close>'s target exists and both requests pass the author-name check,
  so that each reply on its own succeeds.
\<close>

theorem concurrent_replies:
  assumes found: "findById (commentModel d) i = Some P"
    and tgt: "populate_ref d P = Some t"
    and r1: "params_id rq1 = i \<and> (isMaster rq1 \<or> ValidAuthorName e (p_author (body rq1)))"
    and r2: "params_id rq2 = i \<and> (isMaster rq2 \<or> ValidAuthorName e (p_author (body rq2)))"
    and s1: "3 \<le> count_list sched True"
    and s2: "3 \<le> count_list sched False"
  shows "\<exists>c1 c2 d' P' zs.
           run2 rv e sched (Pending rq1, Pending rq2, d) = (Replied c1, Replied c2, d')
           \<and> findById (commentModel d') i = Some P'
           \<and> commentsIndex P' = commentsIndex P + 2
           \<and> children P' = children P @ zs
           \<and> (zs = [c_id c1, c_id c2] \<or> zs = [c_id c2, c_id c1])
           \<and> c_id c1 \<noteq> c_id c2
           \<and> c_id c1 \<notin> set (children P) \<and> c_id c2 \<notin> set (children P)
           \<and> findById (commentModel d') (c_id c1) = Some c1
           \<and> findById (commentModel d') (c_id c2) = Some c2"
proof -
  have inv0: "reply_inv e i P d (Pending rq1, Pending rq2, d)"
    unfolding reply_inv_def using found r1 r2 by simp
  obtain t1 t2 d' where run: "run2 rv e sched (Pending rq1, Pending rq2, d) = (t1, t2, d')"
    by (cases "run2 rv e sched (Pending rq1, Pending rq2, d)")
  from run2_inv [OF inv0 tgt run] s1 s2
  have inv: "reply_inv e i P d (t1, t2, d')" and st: "stage t1 = 3" "stage t2 = 3"
    by simp_all
  from inv have g: "good e i d' t1" "good e i d' t2" unfolding reply_inv_def by simp_all
  from stage_3_good [OF st(1) g(1)] obtain c1 where t1: "t1 = Replied c1" by blast
  from stage_3_good [OF st(2) g(2)] obtain c2 where t2: "t2 = Replied c2" by blast
  from inv t1 t2 obtain P' where
    "findById (commentModel d') i = Some P'"
    "commentsIndex P' = commentsIndex P + 2"
    "children P' = children P @ [c_id c1, c_id c2] \<or> children P' = children P @ [c_id c2, c_id c1]"
    "c_id c1 \<noteq> c_id c2" "c_id c1 \<notin> set (children P)" "c_id c2 \<notin> set (children P)"
    "findById (commentModel d') (c_id c1) = Some c1"
    "findById (commentModel d') (c_id c2) = Some c2"
    unfolding reply_inv_def by auto
  with run t1 t2 show ?thesis by blast
qed

theorem concurrent_replies_witness:
  "\<exists>c1 c2 d' P'.
     run2 Current sample_env [True, False, False, True, False, True]
       (Pending sample_request, Pending (sample_request \<lparr> isMaster := True \<rparr>), sample_db)
       = (Replied c1, Replied c2, d')
     \<and> findById (commentModel d') 2 = Some P'
     \<and> commentsIndex P' = 2
     \<and> c_id c1 \<noteq> c_id c2
     \<and> (children P' = [c_id c1, c_id c2] \<or> children P' = [c_id c2, c_id c1])"
proof -
  have f: "findById (commentModel sample_db) 2 = Some sample_root"
    by (simp add: sample_defs findById_def)
  have t: "populate_ref sample_db sample_root = Some sample_post"
    by (simp add: sample_defs populate_ref_def targetModel_def findContent_def)
  have r1: "params_id sample_request = 2
      \<and> (isMaster sample_request \<or> ValidAuthorName sample_env (p_author (body sample_request)))"
    by (simp add: sample_defs empty_partial_def)
  have r2: "params_id (sample_request \<lparr> isMaster := True \<rparr>) = 2
      \<and> (isMaster (sample_request \<lparr> isMaster := True \<rparr>)
         \<or> ValidAuthorName sample_env (p_author (body (sample_request \<lparr> isMaster := True \<rparr>))))"
    by (simp add: sample_defs)
  have s: "3 \<le> count_list [True, False, False, True, False, True] True"
    "3 \<le> count_list [True, False, False, True, False, True] False" by simp_all
  have c: "commentsIndex sample_root = 0" "children sample_root = []"
    by (simp_all add: sample_defs)
  from concurrent_replies [OF f t r1 r2 s, of Current] c show ?thesis
    by (metis add_0 append_Nil)
qed

subsection \<open>Replying to a comment that does not exist\<close>

text \<open>
  C5, as the code has it. A reply to an id that matches no comment fails and leaves the
  store as it was. The failure is NotFound when the request gets as far as the lookup,
  that is for the site owner and for a guest whose author name is accepted; a guest
  whose author name is refused is answered with that refusal, which comes first.
\<close>

theorem replyByCid_unknown_parent:
  assumes "findById (commentModel d) (params_id rq) = None"
  shows "replyByCid rv e d rq =
           (Inl (if isMaster rq \<or> ValidAuthorName e (p_author (body rq)) then NotFound
                 else BadInput), d)"
  using assms by (simp add: replyByCid_def reply_lookup_def)

theorem replyByCid_unknown_parent_witness:
  "findById (commentModel sample_db) 7 = None
   \<and> replyByCid Current sample_env sample_db (sample_request \<lparr> params_id := 7 \<rparr>)
       = (Inl NotFound, sample_db)"
proof -
  have h: "findById (commentModel sample_db) (params_id (sample_request \<lparr> params_id := 7 \<rparr>))
      = None"
    by (simp add: sample_defs findById_def)
  have v: "ValidAuthorName sample_env (p_author (body (sample_request \<lparr> params_id := 7 \<rparr>)))"
    by (simp add: sample_defs empty_partial_def)
  show ?thesis
    using h v replyByCid_unknown_parent [OF h, of Current sample_env] by simp
qed

text \<open>
  C5 as stated fails: no comment has the id 7, and a guest who signs as the site owner
  is answered with BadInput, not with NotFound.
\<close>

theorem replyByCid_unknown_parent_counterexample:
  "findById (commentModel sample_db) 7 = None
   \<and> replyByCid Current sample_env sample_db
        (sample_request \<lparr> params_id := 7, body := sample_body \<lparr> p_author := Some ''master'' \<rparr> \<rparr>)
       = (Inl BadInput, sample_db)"
  by (simp add: sample_defs reply_defs)

subsection \<open>The target of a reply\<close>

text \<open>
  A reply whose body carries neither \<^verbatim>\<open>ref\<close> nor \<^verbatim>\<open>refType\<close> stores the parent's.
\<close>

lemma reply_stores_parent_ref:
  assumes ok: "replyByCid rv e d rq = (Inr r, d')"
    and found: "findById (commentModel d) (params_id rq) = Some P"
    and nr: "p_ref (body rq) = None"
    and nt: "p_refType (body rq) = None"
  shows "\<exists>c. findById (commentModel d) (c_id c) = None
            \<and> findById (commentModel d') (c_id c) = Some c
            \<and> ref c = ref P \<and> refType c = refType P"
proof -
  from replyByCid_Inr [OF ok] obtain Q tid c where
    L: "reply_lookup e d rq = Inr (Q, tid)" and
    C: "createNew (reply_model rv Q tid rq) d
          = Inr (c, d \<lparr> commentModel := commentModel d @ [c] \<rparr>)" and
    D: "d' = updateOne (c_id Q) (reply_update rv Q c)
          (d \<lparr> commentModel := commentModel d @ [c] \<rparr>)"
    by blast
  from reply_lookup_Inr(1) [OF L] found have Q: "Q = P" by simp
  from reply_lookup_Inr(2) [OF L] Q obtain t where "populate_ref d P = Some t" "t_id t = tid"
    by blast
  then have tid: "tid = ref P" using populate_ref_id by blast
  have idP: "c_id P = params_id rq" using found by (rule findById_Some_id)
  have cid: "c_id c = fresh_id (commentModel d)" using C by (rule createNew_Inr(1))
  have fresh: "findById (commentModel d) (c_id c) = None"
    by (simp add: cid findById_fresh)
  have ne: "c_id c \<noteq> params_id rq" using fresh found by auto
  have r: "ref c = ref P"
    using createNew_Inr(3) [OF C] nr tid
    by (simp add: reply_model_def spread_def orElse_def ip_partial_def empty_partial_def)
  have t: "refType c = refType P"
    using createNew_Inr(4) [OF C] nt Q
    by (simp add: reply_model_def spread_def orElse_def ip_partial_def empty_partial_def)
  have pres: "\<forall>x. c_id (applyUpdate (reply_update rv P c) x) = c_id x"
    by (simp add: applyUpdate_id)
  have child: "findById (commentModel d') (c_id c) = Some c"
    using D Q idP found fresh ne pres
    by (simp add: updateOne_def updateFirst_append findById_append findById_updateFirst_other)
  from fresh child r t show ?thesis by blast
qed

text \<open>
  C6. A reply is to store its parent's \<^verbatim>\<open>ref\<close> and \<^verbatim>\<open>refType\<close> whatever the client
  sends. The handler takes both from the parent, but spreads \<^verbatim>\<open>...body\<close> after them
  (only \<^verbatim>\<open>key\<close> is set after the spread): on the small store, whose parent refers to
  post 1, a request whose body differs from the sample request's only in carrying
  \<^verbatim>\<open>ref: 9\<close> stores a reply with \<^verbatim>\<open>ref\<close> 9 where the sample request stores 1, in both
  revisions. A \<^verbatim>\<open>key\<close> in the body, by contrast, does not reach the stored reply.
\<close>

theorem reply_ref_overridden:
  "(body (sample_request \<lparr> body := sample_body \<lparr> p_ref := Some 9 \<rparr> \<rparr>)) \<lparr> p_ref := None \<rparr>
     = body sample_request
   \<and> ref sample_root = 1
   \<and> map ref (commentModel (snd (replyByCid Current sample_env sample_db sample_request)))
       = [1, 1]
   \<and> map ref (commentModel (snd (replyByCid Current sample_env sample_db
         (sample_request \<lparr> body := sample_body \<lparr> p_ref := Some 9 \<rparr> \<rparr>))))
       = [1, 9]
   \<and> map ref (commentModel (snd (replyByCid Legacy sample_env sample_db
         (sample_request \<lparr> body := sample_body \<lparr> p_ref := Some 9 \<rparr> \<rparr>))))
       = [1, 9]
   \<and> map key (commentModel (snd (replyByCid Current sample_env sample_db
         (sample_request \<lparr> body := sample_body \<lparr> p_key := Some ''mine'' \<rparr> \<rparr>))))
       = [''2'', ''2#0'']"
  by (simp add: sample_defs reply_defs)

subsection \<open>Listing windows\<close>

text \<open>
  C7, as the code has it. With \<^verbatim>\<open>page\<close> at least 1, \<^verbatim>\<open>size\<close> within 1..50 and
  \<^verbatim>\<open>(page - 1) * size\<close> at most \<open>2 ^ 53\<close>, each of \<^verbatim>\<open>getAll\<close>, \<^verbatim>\<open>getNotes\<close>,
  \<^verbatim>\<open>getCommentsByRefId\<close>, \<^verbatim>\<open>searchPost\<close> and \<^verbatim>\<open>searchNote\<close> answers with what its service
  returns for one call, whose options have \<^verbatim>\<open>skip = (page - 1) * size\<close> and
  \<^verbatim>\<open>limit = size\<close>, whatever the service is. The three analyze listings do so when
  \<^verbatim>\<open>page\<close> is below \<open>2 ^ 31\<close>. \<^verbatim>\<open>getRecentlyComments\<close> computes no skip: it hands
  \<^verbatim>\<open>page\<close> and \<^verbatim>\<open>size\<close> to the comment service as they are.
\<close>

theorem listing_skip_limit:
  assumes "1 \<le> page" and "1 \<le> sz" and "sz \<le> 50" and "(page - 1) * sz \<le> 2 ^ 53"
    and "q_page q = Some (Num page)" and "q_size q = Some (Num sz)"
    and "s_page sq = Some (Num page)" and "s_size sq = Some (Num sz)"
    and "a_page aq = Some (Num page)" and "a_size aq = Some (Num sz)"
    and "pg_page pq = Some (Num page)" and "pg_size pq = Some (Num sz)"
  shows "(\<exists>flt opts. (\<forall>service. getAll service newDate m q = service flt opts)
            \<and> opt_skip opts = Num ((page - 1) * sz) \<and> opt_limit opts = Some (Num sz))
       \<and> (\<exists>flt opts. (\<forall>service. getNotes service newDate m q = service flt opts)
            \<and> opt_skip opts = Num ((page - 1) * sz) \<and> opt_limit opts = Some (Num sz))
       \<and> (\<exists>flt opts. (\<forall>service. getCommentsByRefId rv service i q = service flt opts)
            \<and> opt_skip opts = Num ((page - 1) * sz) \<and> opt_limit opts = Some (Num sz))
       \<and> (\<exists>flt opts. (\<forall>service. searchPost service regExp sq = service flt opts)
            \<and> opt_skip opts = Num ((page - 1) * sz) \<and> opt_limit opts = Some (Num sz))
       \<and> (\<exists>flt opts. (\<forall>service. searchNote service regExp sq = service flt opts)
            \<and> opt_skip opts = Num ((page - 1) * sz) \<and> opt_limit opts = Some (Num sz))
       \<and> (page < 2 ^ 31 \<longrightarrow>
            (\<exists>opts. (\<forall>service. getAnalyzeToday service t0 t1 aq = service t0 t1 opts)
               \<and> (\<forall>service. getAnalyzeWeek service t0 t1 aq = service t0 t1 opts)
               \<and> (\<forall>service. fst (getAnalyze service t1 call_time ips aq)
                     = service (a_from aq) (case a_to aq of None \<Rightarrow> t1 | Some t \<Rightarrow> t) opts)
               \<and> r_skip opts = Num ((page - 1) * sz) \<and> r_limit opts = sz))
       \<and> (\<exists>args. (\<forall>service. getRecentlyComments service pq = service args)
            \<and> arg_page args = Num page \<and> arg_size args = Num sz)"
proof -
  note sk = js_skip_exact [OF assms(1,2,4)]
  have sk': "js_mul (js_sub (Num page) (Num 1)) (Num sz) = Num ((page - 1) * sz)"
    using sk by (simp add: js_skip_def js_number_def)
  have a: "\<exists>flt opts. (\<forall>service. getAll service newDate m q = service flt opts)
            \<and> opt_skip opts = Num ((page - 1) * sz) \<and> opt_limit opts = Some (Num sz)"
    unfolding getAll_def using assms(5,6) sk
    by (intro exI conjI allI) (rule refl, simp_all)
  have b: "\<exists>flt opts. (\<forall>service. getNotes service newDate m q = service flt opts)
            \<and> opt_skip opts = Num ((page - 1) * sz) \<and> opt_limit opts = Some (Num sz)"
    unfolding getNotes_def using assms(5,6) sk
    by (intro exI conjI allI) (rule refl, simp_all)
  have c: "\<exists>flt opts. (\<forall>service. getCommentsByRefId rv service i q = service flt opts)
            \<and> opt_skip opts = Num ((page - 1) * sz) \<and> opt_limit opts = Some (Num sz)"
    unfolding getCommentsByRefId_def Let_def using assms(5,6) sk'
    by (intro exI conjI allI) (rule refl, simp_all)
  have d: "\<exists>flt opts. (\<forall>service. searchPost service regExp sq = service flt opts)
            \<and> opt_skip opts = Num ((page - 1) * sz) \<and> opt_limit opts = Some (Num sz)"
    unfolding searchPost_def using assms(7,8) sk
    by (intro exI conjI allI) (rule refl, simp_all)
  have e: "\<exists>flt opts. (\<forall>service. searchNote service regExp sq = service flt opts)
            \<and> opt_skip opts = Num ((page - 1) * sz) \<and> opt_limit opts = Some (Num sz)"
    unfolding searchNote_def using assms(7,8) sk
    by (intro exI conjI allI) (rule refl, simp_all)
  have f: "page < 2 ^ 31 \<longrightarrow>
            (\<exists>opts. (\<forall>service. getAnalyzeToday service t0 t1 aq = service t0 t1 opts)
               \<and> (\<forall>service. getAnalyzeWeek service t0 t1 aq = service t0 t1 opts)
               \<and> (\<forall>service. fst (getAnalyze service t1 call_time ips aq)
                     = service (a_from aq) (case a_to aq of None \<Rightarrow> t1 | Some t \<Rightarrow> t) opts)
               \<and> r_skip opts = Num ((page - 1) * sz) \<and> r_limit opts = sz)"
  proof
    assume lt: "page < 2 ^ 31"
    have s: "to_int32 (Num sz) = sz" using assms(2,3) by (intro to_int32_small) simp_all
    show "\<exists>opts. (\<forall>service. getAnalyzeToday service t0 t1 aq = service t0 t1 opts)
               \<and> (\<forall>service. getAnalyzeWeek service t0 t1 aq = service t0 t1 opts)
               \<and> (\<forall>service. fst (getAnalyze service t1 call_time ips aq)
                     = service (a_from aq) (case a_to aq of None \<Rightarrow> t1 | Some t \<Rightarrow> t) opts)
               \<and> r_skip opts = Num ((page - 1) * sz) \<and> r_limit opts = sz"
      using assms(9,10) analyze_skip_exact [OF assms(1) lt assms(2,3)] s
      by (intro exI [of _ "analyze_options aq"])
         (simp add: getAnalyzeToday_def getAnalyzeWeek_def getAnalyze_def analyze_options_def
           Let_def)
  qed
  have g: "\<exists>args. (\<forall>service. getRecentlyComments service pq = service args)
            \<and> arg_page args = Num page \<and> arg_size args = Num sz"
    unfolding getRecentlyComments_def using assms(11,12)
    by (intro exI conjI allI) (rule refl, simp_all)
  show ?thesis by (intro conjI) (rule a b c d e f g)+
qed

theorem listing_skip_limit_witness:
  "opt_skip (snd (getAll recorded (\<lambda>y mo da. y) False sample_query)) = Num 20
   \<and> opt_limit (snd (getAll recorded (\<lambda>y mo da. y) False sample_query)) = Some (Num 10)
   \<and> opt_skip (snd (getCommentsByRefId Current recorded 1 sample_query)) = Num 20
   \<and> opt_limit (snd (getCommentsByRefId Current recorded 1 sample_query)) = Some (Num 10)
   \<and> r_skip (getAnalyzeToday (\<lambda>t0 t1 opts. opts) 0 1
        \<lparr> a_from = None, a_to = None, a_page = Some (Num 3), a_size = Some (Num 10) \<rparr>)
     = Num 20"
proof -
  let ?sq = "\<lparr> s_keyword = ''draft'', s_page = Some (Num 3), s_size = Some (Num 10) \<rparr>"
  let ?aq = "\<lparr> a_from = None, a_to = None, a_page = Some (Num 3), a_size = Some (Num 10) \<rparr>"
  let ?pq = "\<lparr> pg_page = Some (Num 3), pg_size = Some (Num 10), pg_state = None \<rparr>"
  have p: "q_page sample_query = Some (Num 3)" and s: "q_size sample_query = Some (Num 10)"
    by (simp_all add: sample_defs)
  have b: "(1::int) \<le> 3" "(1::int) \<le> 10" "(10::int) \<le> 50" "(3 - 1) * (10::int) \<le> 2 ^ 53"
    by simp_all
  have sp: "s_page ?sq = Some (Num 3)" "s_size ?sq = Some (Num 10)" by simp_all
  have ap: "a_page ?aq = Some (Num 3)" "a_size ?aq = Some (Num 10)" by simp_all
  have pp: "pg_page ?pq = Some (Num 3)" "pg_size ?pq = Some (Num 10)" by simp_all
  note t = listing_skip_limit [OF b p s sp ap pp, where newDate = "\<lambda>y mo da. y" and m = False
      and rv = Current and i = 1 and ?t0.0 = 0 and ?t1.0 = 1 and call_time = "()" and ips = "()"]
  note t1 = t [THEN conjunct1]
  note t3 = t [THEN conjunct2, THEN conjunct2, THEN conjunct1]
  note t6 = t [THEN conjunct2, THEN conjunct2, THEN conjunct2, THEN conjunct2, THEN conjunct2,
      THEN conjunct1]
  from t1 obtain flt opts where
    "\<forall>service :: _ \<Rightarrow> _ \<Rightarrow> query_filter \<times> PageOptions. getAll service (\<lambda>y mo da. y) False sample_query = service flt opts"
    "opt_skip opts = Num ((3 - 1) * 10)" "opt_limit opts = Some (Num 10)" by auto
  then have a: "opt_skip (snd (getAll recorded (\<lambda>y mo da. y) False sample_query)) = Num 20"
    "opt_limit (snd (getAll recorded (\<lambda>y mo da. y) False sample_query)) = Some (Num 10)"
    by (simp_all add: recorded_def)
  from t3 obtain flt' opts' where
    "\<forall>service :: _ \<Rightarrow> _ \<Rightarrow> query_filter \<times> PageOptions. getCommentsByRefId Current service 1 sample_query = service flt' opts'"
    "opt_skip opts' = Num ((3 - 1) * 10)" "opt_limit opts' = Some (Num 10)" by auto
  then have c: "opt_skip (snd (getCommentsByRefId Current recorded 1 sample_query)) = Num 20"
    "opt_limit (snd (getCommentsByRefId Current recorded 1 sample_query)) = Some (Num 10)"
    by (simp_all add: recorded_def)
  have "(3::int) < 2 ^ 31" by simp
  with t6 obtain ropts where
    "\<forall>service :: _ \<Rightarrow> _ \<Rightarrow> _ \<Rightarrow> RangeOptions. getAnalyzeToday service 0 1 ?aq = service 0 1 ropts"
    "r_skip ropts = Num ((3 - 1) * 10)" by auto
  then have d: "r_skip (getAnalyzeToday (\<lambda>t0 t1 opts. opts) 0 1 ?aq) = Num 20" by simp
  show ?thesis by (intro conjI) (rule a c d)+
qed

text \<open>
  C7 as stated fails for large pages. At \<^verbatim>\<open>page\<close> \<open>2 ^ 53\<close> and \<^verbatim>\<open>size\<close> 3 the product
  \<^verbatim>\<open>(page - 1) * size\<close> is 27021597764222973, which no double holds: \<^verbatim>\<open>getAll\<close> queries
  with skip 27021597764222972. At \<^verbatim>\<open>page\<close> \<open>2 ^ 31\<close> and \<^verbatim>\<open>size\<close> 50 the analyze listing
  takes \<^verbatim>\<open>~~page\<close>, which is \<open>- 2 ^ 31\<close>, and queries with a negative skip.
\<close>

theorem listing_skip_limit_counterexample:
  "(9007199254740992 - 1) * 3 = (27021597764222973 :: int)
   \<and> opt_skip (snd (getAll recorded (\<lambda>y mo da. y) False
        (sample_query \<lparr> q_page := Some (Num 9007199254740992), q_size := Some (Num 3) \<rparr>)))
     = Num 27021597764222972
   \<and> (2147483648 - 1) * 50 = (107374182350 :: int)
   \<and> r_skip (getAnalyzeToday (\<lambda>t0 t1 opts. opts) 0 1
        \<lparr> a_from = None, a_to = None, a_page = Some (Num 2147483648), a_size = Some (Num 50) \<rparr>)
     = Num (- 107374182450)"
proof -
  have a: "(9007199254740992 - 1) * 3 = (27021597764222973 :: int)" by simp
  have "js_skip (Some (Num 9007199254740992)) (Some (Num 3)) = Num 27021597764222972"
    by (simp add: number_defs)
  then have b: "opt_skip (snd (getAll recorded (\<lambda>y mo da. y) False
        (sample_query \<lparr> q_page := Some (Num 9007199254740992), q_size := Some (Num 3) \<rparr>)))
     = Num 27021597764222972"
    by (simp add: getAll_def recorded_def sample_defs)
  have c: "(2147483648 - 1) * 50 = (107374182350 :: int)" by simp
  have d: "r_skip (getAnalyzeToday (\<lambda>t0 t1 opts. opts) 0 1
        \<lparr> a_from = None, a_to = None, a_page = Some (Num 2147483648), a_size = Some (Num 50) \<rparr>)
     = Num (- 107374182450)"
    by (simp add: getAnalyzeToday_def analyze_options_def number_defs)
  show ?thesis by (intro conjI) (rule a b c d)+
qed

subsection \<open>Moderation\<close>

lemma modify_once:
  assumes "findById (commentModel d) i = Some c"
  shows "\<exists>r d1. modifyCommentState d i s = (Inr r, d1)
           \<and> findById (commentModel d1) i = Some (c \<lparr> state := s \<rparr>)"
  using assms
  by (simp add: modifyCommentState_def updateAsync_def findById_updateFirst_same)

text \<open>
  C8. For an existing comment, whatever its state, setting the state to \<open>s1\<close> succeeds
  and leaves state \<open>s1\<close>, and setting it to \<open>s2\<close> afterwards succeeds and leaves state
  \<open>s2\<close>: no transition among Unread, Read and Junk is refused.
\<close>

theorem moderate_any_transition:
  assumes "findById (commentModel d) i = Some c"
  shows "\<exists>r1 d1 r2 d2.
           modifyCommentState d i s1 = (Inr r1, d1)
           \<and> map_option state (findById (commentModel d1) i) = Some s1
           \<and> modifyCommentState d1 i s2 = (Inr r2, d2)
           \<and> map_option state (findById (commentModel d2) i) = Some s2"
proof -
  from modify_once [OF assms, of s1] obtain r1 d1 where
    m1: "modifyCommentState d i s1 = (Inr r1, d1)"
    and f1: "findById (commentModel d1) i = Some (c \<lparr> state := s1 \<rparr>)" by blast
  from modify_once [OF f1, of s2] obtain r2 d2 where
    m2: "modifyCommentState d1 i s2 = (Inr r2, d2)"
    and f2: "findById (commentModel d2) i = Some (c \<lparr> state := s1, state := s2 \<rparr>)" by blast
  from m1 f1 m2 f2 show ?thesis by simp
qed

theorem moderate_any_transition_witness:
  "findById (commentModel sample_db) 2 = Some sample_root
   \<and> (\<exists>r1 d1 r2 d2.
           modifyCommentState sample_db 2 Junk = (Inr r1, d1)
           \<and> map_option state (findById (commentModel d1) 2) = Some Junk
           \<and> modifyCommentState d1 2 Read = (Inr r2, d2)
           \<and> map_option state (findById (commentModel d2) 2) = Some Read)"
proof -
  have h: "findById (commentModel sample_db) 2 = Some sample_root"
    by (simp add: sample_defs findById_def)
  show ?thesis
    using h moderate_any_transition [OF h, of Junk Read] by simp
qed

subsection \<open>Deleting a post\<close>









subsection \<open>What a guest may list\<close>

lemma window_subset: "set (window opts xs) \<subseteq> set xs"
  unfolding window_def Let_def
  by (auto split: jsnum.splits option.splits dest: in_set_takeD in_set_dropD)

lemma page_data_subset:
  "set (page_data (findWithPaginator fld coll flt opts))
     \<subseteq> set (filter (\<lambda>x. matches (fld x) flt) coll)"
proof -
  let ?hits = "filter (\<lambda>x. matches (fld x) flt) coll"
  let ?sorted = "case opt_sort opts of None \<Rightarrow> ?hits
       | Some (f, dir) \<Rightarrow> sort_key (\<lambda>x. dir * num_rank (fld x f)) ?hits"
  have a: "page_data (findWithPaginator fld coll flt opts) = window opts ?sorted"
    by (simp add: findWithPaginator_def Let_def)
  have b: "set ?sorted = set ?hits"
    by (cases "opt_sort opts") (auto split: prod.splits)
  from window_subset [of opts ?sorted] show ?thesis
    unfolding a b .
qed

lemma page_data_matches:
  assumes "x \<in> set (page_data (findWithPaginator fld coll flt opts))"
  shows "x \<in> set coll \<and> matches (fld x) flt"
  using subsetD [OF page_data_subset assms] by simp

lemma guest_condition:
  assumes "matches fld (list_condition newDate False q)"
  shows "fld ''hide'' = VBool False \<and> fld ''password'' = VUndefined"
  using assms
  by (auto simp: list_condition_def addConditionToSeeHideContent_def yearCondition_def
      obj_spread_def matches_def match_clause_def match_cond_def split: option.splits if_splits)

lemma master_condition: "matches (content_field t) (addConditionToSeeHideContent True)"
  by (cases "hide t")
     (simp_all add: addConditionToSeeHideContent_def matches_def match_clause_def match_cond_def
        content_field_def)

lemma content_guest:
  assumes "matches (content_field t) (list_condition newDate False q)"
  shows "hide t = False \<and> password t = None"
  using guest_condition [OF assms]
  by (simp add: content_field_def opt_val_def split: option.splits)

text \<open>
  What \<^verbatim>\<open>addConditionToSeeHideContent\<close> returns, and what follows for the two listings
  that use it: every item that \<^verbatim>\<open>getAll\<close> or \<^verbatim>\<open>getNotes\<close> returns for a caller who is not
  the site owner is not hidden and has no password.
\<close>

lemma guest_listing_hides:
  "addConditionToSeeHideContent False
     = [(''hide'', Is (CEq (VBool False))), (''password'', Is (CEq VUndefined))]
   \<and> matches (content_field t) (addConditionToSeeHideContent True)
   \<and> (\<forall>x \<in> set (page_data (getAll (findWithPaginator content_field (postModel d)) newDate False q)).
        hide x = False \<and> password x = None)
   \<and> (\<forall>x \<in> set (page_data (getNotes (findWithPaginator content_field (noteModel d)) newDate False q)).
        hide x = False \<and> password x = None)"
proof -
  have a: "addConditionToSeeHideContent False
      = [(''hide'', Is (CEq (VBool False))), (''password'', Is (CEq VUndefined))]"
    by (simp add: addConditionToSeeHideContent_def)
  have p: "\<forall>x \<in> set (page_data (getAll (findWithPaginator content_field (postModel d)) newDate False q)).
      hide x = False \<and> password x = None"
  proof
    fix x
    assume "x \<in> set (page_data (getAll (findWithPaginator content_field (postModel d)) newDate False q))"
    then have "matches (content_field x) (list_condition newDate False q)"
      unfolding getAll_def by (rule page_data_matches [THEN conjunct2])
    then show "hide x = False \<and> password x = None" by (rule content_guest)
  qed
  have n: "\<forall>x \<in> set (page_data (getNotes (findWithPaginator content_field (noteModel d)) newDate False q)).
      hide x = False \<and> password x = None"
  proof
    fix x
    assume "x \<in> set (page_data (getNotes (findWithPaginator content_field (noteModel d)) newDate False q))"
    then have "matches (content_field x) (list_condition newDate False q)"
      unfolding getNotes_def by (rule page_data_matches [THEN conjunct2])
    then show "hide x = False \<and> password x = None" by (rule content_guest)
  qed
  show ?thesis by (intro conjI) (rule a master_condition p n)+
qed

text \<open>
  C10. Every listing of posts and notes that a guest can query is to be restricted to
  items that are not hidden and carry no password. \<^verbatim>\<open>getAll\<close> is: on the small store a
  guest gets the visible post only. \<^verbatim>\<open>searchPost\<close> and \<^verbatim>\<open>searchNote\<close>, which take no
  \<^verbatim>\<open>isMaster\<close> and add no condition, are not: the filter that a search for \<open>''draft''\<close>
  hands to its service matches the hidden post, which the search lists with its
  title, and a search for \<open>''diary''\<close> lists the note behind a password.
\<close>

theorem search_lists_hidden:
  "hide sample_hidden
   \<and> password sample_note = Some ''pw''
   \<and> map t_id (page_data (getAll (findWithPaginator content_field (postModel sample_db))
        (\<lambda>y mo da. y) False (sample_query \<lparr> q_page := Some (Num 1) \<rparr>)))
     = [t_id sample_post]
   \<and> matches (content_field sample_hidden) (fst (searchPost recorded occurs_in
        \<lparr> s_keyword = ''draft'', s_page = Some (Num 1), s_size = Some (Num 10) \<rparr>))
   \<and> map (\<lambda>t. (t_id t, title t))
        (page_data (searchPost (findWithPaginator content_field (postModel sample_db)) occurs_in
          \<lparr> s_keyword = ''draft'', s_page = Some (Num 1), s_size = Some (Num 10) \<rparr>))
     = [(t_id sample_hidden, ''draft'')]
   \<and> matches (content_field sample_note) (fst (searchNote recorded occurs_in
        \<lparr> s_keyword = ''diary'', s_page = Some (Num 1), s_size = Some (Num 10) \<rparr>))
   \<and> map (\<lambda>t. (t_id t, title t))
        (page_data (searchNote (findWithPaginator content_field (noteModel sample_db)) occurs_in
          \<lparr> s_keyword = ''diary'', s_page = Some (Num 1), s_size = Some (Num 10) \<rparr>))
     = [(t_id sample_note, ''diary'')]"
proof -
  have a: "hide sample_hidden" "password sample_note = Some ''pw''"
    by (simp_all add: sample_defs)
  have b: "map t_id (page_data (getAll (findWithPaginator content_field (postModel sample_db))
        (\<lambda>y mo da. y) False (sample_query \<lparr> q_page := Some (Num 1) \<rparr>)))
     = [t_id sample_post]"
    by (simp add: sample_defs listing_defs number_defs)
  have c: "matches (content_field sample_hidden) (fst (searchPost recorded occurs_in
        \<lparr> s_keyword = ''draft'', s_page = Some (Num 1), s_size = Some (Num 10) \<rparr>))"
    by (simp add: sample_defs listing_defs number_defs)
  have d: "map (\<lambda>t. (t_id t, title t))
        (page_data (searchPost (findWithPaginator content_field (postModel sample_db)) occurs_in
          \<lparr> s_keyword = ''draft'', s_page = Some (Num 1), s_size = Some (Num 10) \<rparr>))
     = [(t_id sample_hidden, ''draft'')]"
    by (simp add: sample_defs listing_defs number_defs)
  have e: "matches (content_field sample_note) (fst (searchNote recorded occurs_in
        \<lparr> s_keyword = ''diary'', s_page = Some (Num 1), s_size = Some (Num 10) \<rparr>))"
    by (simp add: sample_defs listing_defs number_defs)
  have f: "map (\<lambda>t. (t_id t, title t))
        (page_data (searchNote (findWithPaginator content_field (noteModel sample_db)) occurs_in
          \<lparr> s_keyword = ''diary'', s_page = Some (Num 1), s_size = Some (Num 10) \<rparr>))
     = [(t_id sample_note, ''diary'')]"
    by (simp add: sample_defs listing_defs number_defs)
  show ?thesis
    by (intro conjI) (rule a b c d e f)+
qed

end
